theory Spec2Isabelle
  imports Complex_Main "HOL-Library.Multiset" "HOL-Library.Sublist"
    "HOL-Library.List_Lexorder" "HOL-Library.Char_ord"
begin

section \<open>ReconRaptor: invoice reconciliation\<close>

text \<open>
  The repository holds two variants of the reconciliation engine:
  \<^item> \<^verbatim>\<open>recon_raptor_fincomms.py\<close>, the pure-Python module (called "the module" below);
  \<^item> \<^verbatim>\<open>server/uploads/...-recon_raptor.py\<close>, the Streamlit application
    (called "the Streamlit variant" below).

  Modelling conventions.
  \<^item> A Python string is an Isabelle \<open>string\<close>. The character classes, \<open>strip\<close>,
    \<open>upper\<close> and \<open>lower\<close> are the ASCII ones, so the model is the program on ASCII text;
    a character above 127 is treated as a symbol that is neither letter, digit nor space.
  \<^item> A cell of a table is a string; a missing cell (NaN, None) is the empty string.
  \<^item> An amount is the rational number that its decimal text denotes; the program holds
    the double nearest to it. Sums of amounts and \<open>round(x, 2)\<close> (to the nearest hundredth,
    ties to even) are computed on the rationals. Where the matchers subtract two amounts
    and compare the difference with a threshold, the model does what the machine does:
    it rounds both amounts and the difference to doubles (\<open>fsub\<close>) and compares with the
    double of the literal (\<open>float64\<close>).
  \<^item> A pandas frame is a list of labelled rows (label = the index value of the row);
    the labels of a table read from a file are the positions of its rows. What pandas
    does with a table that has no row at all is outside the model.
  \<^item> Where the two variants differ, the matching tiers, the payment matcher and the
    consolidation with its guard are those of the module; the consolidation by document
    type and \<open>clean_invoice_code\<close> are those of the Streamlit variant.
\<close>

subsection \<open>Characters and strings\<close>

definition code :: "char \<Rightarrow> nat" where
  "code c = of_char c"

definition is_digit :: "char \<Rightarrow> bool" where
  "is_digit c \<longleftrightarrow> 48 \<le> code c \<and> code c \<le> 57"

definition is_upper :: "char \<Rightarrow> bool" where
  "is_upper c \<longleftrightarrow> 65 \<le> code c \<and> code c \<le> 90"

definition is_lower :: "char \<Rightarrow> bool" where
  "is_lower c \<longleftrightarrow> 97 \<le> code c \<and> code c \<le> 122"

definition is_alpha :: "char \<Rightarrow> bool" where
  "is_alpha c \<longleftrightarrow> is_upper c \<or> is_lower c"

text \<open>Python's whitespace (\<open>str.isspace\<close>, regex \<open>\s\<close>) below 128: tab to carriage
  return, the four separators 28 to 31, and the blank.\<close>

definition is_space :: "char \<Rightarrow> bool" where
  "is_space c \<longleftrightarrow> (9 \<le> code c \<and> code c \<le> 13) \<or> (28 \<le> code c \<and> code c \<le> 32)"

text \<open>Regex \<open>\w\<close>: letters, digits and the underscore; \<open>\W\<close> is its complement.\<close>

definition is_word :: "char \<Rightarrow> bool" where
  "is_word c \<longleftrightarrow> is_alpha c \<or> is_digit c \<or> c = CHR ''_''"

text \<open>The class \<open>[\s\-_./]\<close> of the module's prefix and year patterns.\<close>

definition is_sep :: "char \<Rightarrow> bool" where
  "is_sep c \<longleftrightarrow> is_space c \<or> c = CHR ''-'' \<or> c = CHR ''_'' \<or> c = CHR ''.'' \<or> c = CHR ''/''"

text \<open>The class \<open>[-_.\s]\<close> the Streamlit variant splits on.\<close>

definition is_split_sep :: "char \<Rightarrow> bool" where
  "is_split_sep c \<longleftrightarrow> c = CHR ''-'' \<or> c = CHR ''_'' \<or> c = CHR ''.'' \<or> is_space c"

definition to_upper :: "char \<Rightarrow> char" where
  "to_upper c = (if is_lower c then char_of (code c - 32) else c)"

definition to_lower :: "char \<Rightarrow> char" where
  "to_lower c = (if is_upper c then char_of (code c + 32) else c)"

definition upper :: "string \<Rightarrow> string" where
  "upper s = map to_upper s"

definition lower :: "string \<Rightarrow> string" where
  "lower s = map to_lower s"

definition lstrip :: "string \<Rightarrow> string" where
  "lstrip s = dropWhile is_space s"

definition rstrip :: "string \<Rightarrow> string" where
  "rstrip s = rev (dropWhile is_space (rev s))"

definition strip :: "string \<Rightarrow> string" where
  "strip s = rstrip (lstrip s)"

text \<open>\<open>s.lstrip("0")\<close> and \<open>re.sub(r"^0+", "", s)\<close>.\<close>

definition lstrip_zeros :: "string \<Rightarrow> string" where
  "lstrip_zeros s = dropWhile (\<lambda>c. c = CHR ''0'') s"

text \<open>\<open>re.fullmatch(r"\d{1,}", p)\<close>.\<close>

definition all_digits :: "string \<Rightarrow> bool" where
  "all_digits p \<longleftrightarrow> p \<noteq> [] \<and> list_all is_digit p"

text \<open>\<open>re.sub(pat, "", s)\<close> for a pattern \<open>20\d{2}T*\<close> where \<open>T\<close> is a character
  class: the string is scanned from the left; where the four characters match they are
  dropped together with the run of \<open>T\<close> characters after them, and the scan goes on behind
  the match; elsewhere the character is kept.\<close>

function sub_years :: "(char \<Rightarrow> bool) \<Rightarrow> string \<Rightarrow> string" where
  "sub_years T (a # b # c # d # rest) =
     (if a = CHR ''2'' \<and> b = CHR ''0'' \<and> is_digit c \<and> is_digit d
      then sub_years T (dropWhile T rest)
      else a # sub_years T (b # c # d # rest))"
| "sub_years T [a, b, c] = [a, b, c]"
| "sub_years T [a, b] = [a, b]"
| "sub_years T [a] = [a]"
| "sub_years T [] = []"
  by pat_completeness auto
termination
  by (relation "measure (\<lambda>(T, s). length s)")
     (auto simp: le_imp_less_Suc length_dropWhile_le less_SucI)

subsection \<open>Invoice-code normalization, the module: \<open>clean_invoice_number\<close>\<close>

definition known_prefixes :: "string list" where
  "known_prefixes =
     [''INV'', ''INVOICE'', ''FACT'', ''FACTURA'', ''TIM'', ''CN'', ''CREDIT'', ''NOTE'',
      ''REF'', ''DOC'', ''NUM'', ''NO'', ''NR'', ''AR'', ''PA'', ''PF'', ''AB'', ''APO'',
      ''APD'', ''VS'']"

text \<open>A literal of an alternation matches at the start of \<open>s\<close>; with \<open>re.IGNORECASE\<close>
  the comparison is up to case (the literals of the module are upper-case).\<close>

definition starts_with :: "string \<Rightarrow> string \<Rightarrow> bool" where
  "starts_with p s \<longleftrightarrow> take (length p) s = p"

definition starts_with_ci :: "string \<Rightarrow> string \<Rightarrow> bool" where
  "starts_with_ci p s \<longleftrightarrow> upper (take (length p) s) = upper p"

text \<open>\<open>re.sub(r'^(INV|INVOICE|...|VS)[\s\-_./]*', '', s, flags=re.IGNORECASE)\<close>: the first
  alternative that matches at the start is taken (the class after it matches any run,
  also the empty one, so the regex engine never backtracks into the alternation).\<close>

definition strip_known_prefix :: "string \<Rightarrow> string" where
  "strip_known_prefix s =
     (case find (\<lambda>p. starts_with_ci p s) known_prefixes of
        None \<Rightarrow> s
      | Some p \<Rightarrow> dropWhile is_sep (drop (length p) s))"

text \<open>\<open>re.sub(r'^[A-Z]{1,3}[\s\-_./]*', '', s, flags=re.IGNORECASE)\<close>: greedy, up to three
  letters.\<close>

definition strip_letter_prefix :: "string \<Rightarrow> string" where
  "strip_letter_prefix s =
     (let n = min 3 (length (takeWhile is_alpha s))
      in if n = 0 then s else dropWhile is_sep (drop n s))"

definition clean_invoice_number :: "string \<Rightarrow> string" where
  "clean_invoice_number v =
     (if v = [] then []
      else
        let s = upper (strip v);
            s = strip_known_prefix s;
            s = strip_letter_prefix s;
            s = sub_years is_sep s;
            s = filter (\<lambda>c. is_upper c \<or> is_digit c) s;
            s = lstrip_zeros s
        in if s = [] then ''0'' else s)"

subsection \<open>Invoice-code normalization, the Streamlit variant: \<open>clean_invoice_code\<close>\<close>

text \<open>\<open>re.split(r"[-_.\s]", s)\<close>: one cut at every separator character; the parts
  between two adjacent separators, before a leading and after a trailing one are empty.\<close>

fun split_on :: "(char \<Rightarrow> bool) \<Rightarrow> string \<Rightarrow> string list" where
  "split_on P [] = [[]]"
| "split_on P (c # cs) =
     (if P c then [] # split_on P cs
      else (case split_on P cs of [] \<Rightarrow> [[c]] | p # ps \<Rightarrow> (c # p) # ps))"

text \<open>\<open>re.fullmatch(r"20[0-3]\d", p)\<close>.\<close>

fun year_like :: "string \<Rightarrow> bool" where
  "year_like [a, b, c, d] \<longleftrightarrow>
     a = CHR ''2'' \<and> b = CHR ''0'' \<and> 48 \<le> code c \<and> code c \<le> 51 \<and> is_digit d"
| "year_like _ \<longleftrightarrow> False"

text \<open>The ASCII alternatives of the prefix pattern
  \<open>^(...|pf|ab|inv|tim|cn|ar|pa|...|apo|ref|doc|num|no|apd|vs)\W*\<close>, in the order of the
  source. The six Greek alternatives cannot match a string of the model and are left out.\<close>

definition doc_prefixes :: "string list" where
  "doc_prefixes =
     [''pf'', ''ab'', ''inv'', ''tim'', ''cn'', ''ar'', ''pa'', ''apo'', ''ref'', ''doc'',
      ''num'', ''no'', ''apd'', ''vs'']"

definition strip_doc_prefix :: "string \<Rightarrow> string" where
  "strip_doc_prefix s =
     (case find (\<lambda>p. starts_with p s) doc_prefixes of
        None \<Rightarrow> s
      | Some p \<Rightarrow> dropWhile (\<lambda>c. \<not> is_word c) (drop (length p) s))"

definition clean_invoice_code :: "string \<Rightarrow> string" where
  "clean_invoice_code v =
     (if v = [] then []
      else
        let s = lower (strip v);
            parts = split_on is_split_sep s;
            s = (case find (\<lambda>p. all_digits p \<and> \<not> year_like p) (rev parts) of
                   Some p \<Rightarrow> lstrip_zeros p
                 | None \<Rightarrow> s);
            s = strip_doc_prefix s;
            s = sub_years (\<lambda>c. False) s;
            s = filter (\<lambda>c. is_lower c \<or> is_digit c) s;
            s = lstrip_zeros s;
            s = filter is_digit s
        in if s = [] then ''0'' else s)"

subsection \<open>Shape of a normalized code that a second normalization leaves alone\<close>

text \<open>
  \<open>has_year s\<close>: the string contains a token \<open>20dd\<close> (two digits after \<open>20\<close>), the
  token both variants delete. \<open>settled y\<close>: \<open>y\<close> is empty, the sentinel \<open>"0"\<close>, or begins
  with a digit other than zero and contains no such token.
\<close>

fun has_year :: "string \<Rightarrow> bool" where
  "has_year (a # b # c # d # rest) \<longleftrightarrow>
     (a = CHR ''2'' \<and> b = CHR ''0'' \<and> is_digit c \<and> is_digit d) \<or> has_year (b # c # d # rest)"
| "has_year _ \<longleftrightarrow> False"

definition settled :: "string \<Rightarrow> bool" where
  "settled y \<longleftrightarrow>
     (case y of [] \<Rightarrow> True
      | c # _ \<Rightarrow> y = ''0'' \<or> (is_digit c \<and> c \<noteq> CHR ''0'' \<and> \<not> has_year y))"

subsection \<open>Codes that differ only in letters\<close>






subsection \<open>Numbers: \<open>normalize_number\<close> (the same code in both variants)\<close>

text \<open>
  \<open>float(s)\<close> on a string of digits, commas, periods and minus signs (the only characters
  left after the substitution): an optional minus sign, then digits with at most one
  period and at least one digit. Anything else raises \<open>ValueError\<close>. The value is the
  decimal number denoted.
\<close>

datatype py_error = ValueError | KeyError

definition digit_val :: "char \<Rightarrow> nat" where
  "digit_val c = code c - 48"

definition dec :: "string \<Rightarrow> nat" where
  "dec s = foldl (\<lambda>n c. 10 * n + digit_val c) 0 s"

definition parse_unsigned :: "string \<Rightarrow> py_error + rat" where
  "parse_unsigned s =
     (let ip = takeWhile is_digit s; rest = dropWhile is_digit s
      in case rest of
           [] \<Rightarrow> if ip = [] then Inl ValueError else Inr (of_nat (dec ip))
         | c # fp \<Rightarrow>
             if c = CHR ''.'' \<and> list_all is_digit fp \<and> (ip \<noteq> [] \<or> fp \<noteq> [])
             then Inr (of_nat (dec ip) + of_nat (dec fp) / 10 ^ length fp)
             else Inl ValueError)"

definition parse_float :: "string \<Rightarrow> py_error + rat" where
  "parse_float s =
     (case s of
        [] \<Rightarrow> Inl ValueError
      | c # t \<Rightarrow>
          if c = CHR ''-'' then map_sum id uminus (parse_unsigned t) else parse_unsigned s)"

text \<open>
  \<open>s.count(c)\<close>, \<open>s.find(c)\<close>, \<open>s.replace(c, "")\<close>, \<open>s.replace(c, d)\<close> and
  \<open>s.replace(c, "", n)\<close> (the first \<open>n\<close> occurrences) for a single character \<open>c\<close>.
\<close>

definition count_char :: "char \<Rightarrow> string \<Rightarrow> nat" where
  "count_char c s = length (filter (\<lambda>x. x = c) s)"

definition find_char :: "char \<Rightarrow> string \<Rightarrow> int" where
  "find_char c s = (if c \<in> set s then int (length (takeWhile (\<lambda>x. x \<noteq> c) s)) else - 1)"

definition remove_char :: "char \<Rightarrow> string \<Rightarrow> string" where
  "remove_char c s = filter (\<lambda>x. x \<noteq> c) s"

definition replace_char :: "char \<Rightarrow> char \<Rightarrow> string \<Rightarrow> string" where
  "replace_char c d s = map (\<lambda>x. if x = c then d else x) s"

fun remove_first :: "nat \<Rightarrow> char \<Rightarrow> string \<Rightarrow> string" where
  "remove_first 0 c s = s"
| "remove_first (Suc n) c [] = []"
| "remove_first (Suc n) c (x # xs) =
     (if x = c then remove_first n c xs else x # remove_first (Suc n) c xs)"

text \<open>
  \<open>decimal_form v\<close> is the string handed to \<open>float\<close>; \<open>normalize_number\<close> catches every
  exception of the conversion and returns \<open>0.0\<close>.
\<close>

definition decimal_form :: "string \<Rightarrow> string" where
  "decimal_form v =
     (let s = filter (\<lambda>c. is_digit c \<or> c = CHR '','' \<or> c = CHR ''.'' \<or> c = CHR ''-'') (strip v)
      in if count_char CHR '','' s = 1 \<and> count_char CHR ''.'' s = 1 then
           (if find_char CHR '','' s > find_char CHR ''.'' s
            then replace_char CHR '','' CHR ''.'' (remove_char CHR ''.'' s)
            else remove_char CHR '','' s)
         else if count_char CHR '','' s = 1 then replace_char CHR '','' CHR ''.'' s
         else if count_char CHR ''.'' s > 1
           then remove_first (count_char CHR ''.'' s - 1) CHR ''.'' s
         else s)"

definition normalize_number :: "string \<Rightarrow> rat" where
  "normalize_number v =
     (if strip v = [] then 0
      else case parse_float (decimal_form v) of Inr x \<Rightarrow> x | Inl e \<Rightarrow> 0)"




subsection \<open>Tables and consolidation, the module\<close>

text \<open>
  \<open>round(x, 2)\<close>.
\<close>

definition round2 :: "rat \<Rightarrow> rat" where
  "round2 x =
     (let y = x * 100; f = \<lfloor>y\<rfloor>; r = y - of_int f
      in of_int (if r < 1 / 2 then f else if 1 / 2 < r then f + 1
                 else if even f then f else f + 1) / 100)"

text \<open>
  A row after \<open>normalize_columns\<close>: the cells of the canonical columns, as text. A table
  records whether an invoice column was detected.
\<close>

record row =
  invoice :: string
  debit :: string
  credit :: string
  date :: string
  entity :: string

record table =
  invoice_col :: bool
  rows :: "row list"

type_synonym 'a frame = "(nat \<times> 'a) list"

definition calculate_amount_vendor :: "row \<Rightarrow> rat" where
  "calculate_amount_vendor r =
     (let d = normalize_number (debit r); c = normalize_number (credit r)
      in if d \<noteq> 0 then d else if c \<noteq> 0 then - \<bar>c\<bar> else 0)"

definition calculate_amount_erp :: "row \<Rightarrow> rat" where
  "calculate_amount_erp r =
     (let d = normalize_number (debit r); c = normalize_number (credit r)
      in if c \<noteq> 0 then c else if d \<noteq> 0 then - \<bar>d\<bar> else 0)"

text \<open>
  \<open>erow\<close>: a row with the computed columns \<open>__amount\<close> and \<open>__inv_clean\<close>.
  \<open>centry\<close>: a consolidated invoice, the first row of its group with \<open>__net_amount\<close>
  and \<open>__entry_count\<close>.
\<close>

record erow =
  src :: row
  amount :: rat
  inv_clean :: string

record centry =
  base :: erow
  net_amount :: rat
  entry_count :: nat

definition has_invoice :: "string \<Rightarrow> bool" where
  "has_invoice x \<longleftrightarrow> x \<noteq> [] \<and> x \<noteq> ''0''"

text \<open>
  The body of the loop over \<open>invoice_rows.groupby("__inv_clean")\<close> for one key.
\<close>

definition consolidate_group :: "erow frame \<Rightarrow> string \<Rightarrow> centry frame" where
  "consolidate_group invoice_rows k =
     (let g = filter (\<lambda>(i, r). inv_clean r = k) invoice_rows;
          net = round2 (sum_list (map (\<lambda>(i, r). amount r) g))
      in if k = [] \<or> k = ''0'' then []
         else if \<bar>net\<bar> < 1 / 100 then []
         else case g of
                [] \<Rightarrow> []
              | (i, r) # _ \<Rightarrow> [(i, \<lparr>base = r, net_amount = net, entry_count = length g\<rparr>)])"

text \<open>
  \<open>consolidate_invoices\<close>. The mask \<open>has_invoice\<close> is computed per row by the expression
  \<open>x and x != "0"\<close>, whose value for an empty code \<open>x\<close> is the empty string and not a
  boolean; the column is then no boolean mask, and the selection \<open>df[has_invoice]\<close> raises
  (pandas reads such a key as a list of column labels). The model returns \<open>KeyError\<close> there.
  An empty code comes from an empty invoice cell only. \<open>groupby\<close> visits the keys in
  sorted order.
\<close>

definition consolidate_invoices ::
  "(row \<Rightarrow> rat) \<Rightarrow> table \<Rightarrow> py_error + centry frame \<times> erow frame" where
  "consolidate_invoices amount_func df =
     (if \<not> invoice_col df then Inr ([], [])
      else
        let ext = map (\<lambda>r. \<lparr>src = r, amount = amount_func r,
                             inv_clean = clean_invoice_number (invoice r)\<rparr>) (rows df);
            lrows = zip [0..<length ext] ext
        in if \<exists>r\<in>set ext. inv_clean r = [] then Inl KeyError
           else
             let invoice_rows = filter (\<lambda>(i, r). has_invoice (inv_clean r)) lrows;
                 payment_rows = filter (\<lambda>(i, r). \<not> has_invoice (inv_clean r)) lrows;
                 keys = sort (remdups (map (\<lambda>(i, r). inv_clean r) invoice_rows))
             in Inr (concat (map (consolidate_group invoice_rows) keys), payment_rows))"

subsection \<open>Binary floating point\<close>

text \<open>
  \<open>float64 x\<close> is the double nearest to the rational \<open>x\<close> (53 significant bits, ties to
  the even significand): with \<open>2 ^ e \<le> |x| < 2 ^ (e + 1)\<close> the doubles near \<open>x\<close> are the
  multiples of \<open>2 ^ (e - 52)\<close>. \<open>bit_length\<close> is the number of binary digits of a natural
  number and \<open>exponent x\<close> the \<open>e\<close> above, for \<open>x > 0\<close>. The range of the exponent is not
  bounded: the model is the machine for the normal doubles (from \<open>2 ^ -1022\<close> up to the
  largest double), which hold every amount of money.

  \<open>fsub a b\<close> is the machine's \<open>a - b\<close> for the amounts \<open>a\<close> and \<open>b\<close>: both are held as doubles
  and the difference is rounded. A literal of the source such as \<open>0.01\<close> is \<open>float64 (1 / 100)\<close>.
\<close>

fun bit_length :: "nat \<Rightarrow> nat" where
  "bit_length n = (if n = 0 then 0 else Suc (bit_length (n div 2)))"

definition pow2 :: "int \<Rightarrow> rat" where
  "pow2 e = (if 0 \<le> e then 2 ^ nat e else 1 / 2 ^ nat (- e))"

definition exponent :: "rat \<Rightarrow> int" where
  "exponent x =
     (if 1 \<le> x then int (bit_length (nat \<lfloor>x\<rfloor>)) - 1
      else let k = int (bit_length (nat \<lfloor>1 / x\<rfloor>)) - 1
           in if pow2 (- k) \<le> x then - k else - k - 1)"

definition round_half_even :: "rat \<Rightarrow> int" where
  "round_half_even y =
     (let f = \<lfloor>y\<rfloor>; r = y - of_int f
      in if r < 1 / 2 then f else if 1 / 2 < r then f + 1
         else if even f then f else f + 1)"

definition float64 :: "rat \<Rightarrow> rat" where
  "float64 x =
     (if x = 0 then 0
      else let a = \<bar>x\<bar>; u = pow2 (exponent a - 52)
           in sgn x * of_int (round_half_even (a / u)) * u)"

definition fsub :: "rat \<Rightarrow> rat \<Rightarrow> rat" where
  "fsub a b = float64 (float64 a - float64 b)"

subsection \<open>Tier 1, the module: \<open>match_invoices\<close>\<close>

text \<open>
  A match record carries the columns of the three tiers; a column a tier does not write
  is \<open>None\<close>. An \<open>entry\<close> is a row of the formatted missing frames.
  The state of a matching loop is the list of records and the two sets of used labels.
\<close>

record match_record =
  erp_invoice :: string
  ven_invoice :: string
  erp_amount :: rat
  ven_amount :: rat
  difference :: rat
  erp_entity :: string
  ven_entity :: string
  status :: "string option"
  fuzzy_score :: "rat option"
  match_date :: "string option"
  match_type :: string

record entry =
  Invoice :: string
  Amount :: rat
  Date :: string
  Entity :: string

type_synonym match_state = "match_record list \<times> nat set \<times> nat set"

definition inv_norm :: "centry \<Rightarrow> string" where
  "inv_norm e = inv_clean (base e)"

definition amt :: "centry \<Rightarrow> rat" where
  "amt e = \<bar>net_amount e\<bar>"

definition tier1_record :: "centry \<Rightarrow> centry \<Rightarrow> match_record" where
  "tier1_record e v =
     (let e_amt = \<bar>amt e\<bar>; v_amt = \<bar>amt v\<bar>; diff = \<bar>fsub e_amt v_amt\<bar>
      in \<lparr>erp_invoice = invoice (src (base e)), ven_invoice = invoice (src (base v)),
          erp_amount = round2 e_amt, ven_amount = round2 v_amt, difference = round2 diff,
          erp_entity = entity (src (base e)), ven_entity = entity (src (base v)),
          status = Some (if diff < float64 (1 / 100) then ''Perfect Match'' else ''Difference Match''),
          fuzzy_score = None, match_date = None, match_type = ''Tier-1''\<rparr>)"

fun tier1_scan :: "centry \<Rightarrow> nat set \<Rightarrow> centry frame \<Rightarrow> (nat \<times> centry) option" where
  "tier1_scan e used_ven [] = None"
| "tier1_scan e used_ven ((v_idx, v) # vs) =
     (if v_idx \<in> used_ven then tier1_scan e used_ven vs
      else if inv_norm e = inv_norm v \<and> inv_norm e \<noteq> [] then Some (v_idx, v)
      else tier1_scan e used_ven vs)"

fun tier1_loop :: "centry frame \<Rightarrow> centry frame \<Rightarrow> match_state \<Rightarrow> match_state" where
  "tier1_loop ven [] st = st"
| "tier1_loop ven ((e_idx, e) # es) (matched, used_erp, used_ven) =
     (if e_idx \<in> used_erp then tier1_loop ven es (matched, used_erp, used_ven)
      else case tier1_scan e used_ven ven of
             None \<Rightarrow> tier1_loop ven es (matched, used_erp, used_ven)
           | Some (v_idx, v) \<Rightarrow>
               tier1_loop ven es
                 (matched @ [tier1_record e v], insert e_idx used_erp, insert v_idx used_ven))"

definition unmatched :: "nat set \<Rightarrow> 'a frame \<Rightarrow> 'a frame" where
  "unmatched used df = filter (\<lambda>(i, r). i \<notin> used) df"

definition reset_index :: "'a frame \<Rightarrow> 'a frame" where
  "reset_index df = zip [0..<length df] (map snd df)"

definition missing_entry :: "centry \<Rightarrow> entry" where
  "missing_entry c =
     \<lparr>Invoice = invoice (src (base c)), Amount = amt c,
      Date = date (src (base c)), Entity = entity (src (base c))\<rparr>"

definition format_missing :: "centry frame \<Rightarrow> entry frame" where
  "format_missing df = reset_index (map (\<lambda>(i, c). (i, missing_entry c)) df)"

definition match_invoices ::
  "table \<Rightarrow> table \<Rightarrow>
   py_error +
   match_record list \<times> entry frame \<times> entry frame \<times> erow frame \<times> erow frame" where
  "match_invoices erp_df ven_df =
     (case consolidate_invoices calculate_amount_erp erp_df of
        Inl err \<Rightarrow> Inl err
      | Inr (erp_consolidated, erp_payments) \<Rightarrow>
     (case consolidate_invoices calculate_amount_vendor ven_df of
        Inl err \<Rightarrow> Inl err
      | Inr (ven_consolidated, ven_payments) \<Rightarrow>
          if erp_consolidated = [] \<and> ven_consolidated = []
          then Inr ([], [], [], erp_payments, ven_payments)
          else
            let (matched, used_erp, used_ven) =
                  (if erp_consolidated \<noteq> [] \<and> ven_consolidated \<noteq> []
                   then tier1_loop ven_consolidated erp_consolidated ([], {}, {})
                   else ([], {}, {}))
            in Inr (matched,
                    format_missing (unmatched used_erp erp_consolidated),
                    format_missing (unmatched used_ven ven_consolidated),
                    erp_payments, ven_payments)))"

subsection \<open>Tiers 2 and 3, the module\<close>

text \<open>
  \<open>fuzzy_ratio\<close> is \<open>difflib.SequenceMatcher(...).ratio()\<close> of the Python library; the
  tiers take it as the parameter \<open>fr\<close>, whose value is the double that the library
  returns.
\<close>

definition similarity :: "(string \<Rightarrow> string \<Rightarrow> rat) \<Rightarrow> string \<Rightarrow> string \<Rightarrow> rat" where
  "similarity fuzzy_ratio e_code v_code =
     (if sublist e_code v_code \<or> sublist v_code e_code then 1
      else fuzzy_ratio e_code v_code)"

definition tier2_record :: "entry \<Rightarrow> entry \<Rightarrow> rat \<Rightarrow> match_record" where
  "tier2_record er vr sim =
     (let e_amt = \<bar>Amount er\<bar>; v_amt = \<bar>Amount vr\<bar>; diff = \<bar>fsub e_amt v_amt\<bar>
      in \<lparr>erp_invoice = Invoice er, ven_invoice = Invoice vr,
          erp_amount = round2 e_amt, ven_amount = round2 v_amt, difference = round2 diff,
          erp_entity = Entity er, ven_entity = Entity vr,
          status = None, fuzzy_score = Some (round2 sim), match_date = None,
          match_type = ''Tier-2''\<rparr>)"

fun tier2_scan ::
  "(string \<Rightarrow> string \<Rightarrow> rat) \<Rightarrow> entry \<Rightarrow> nat set \<Rightarrow> entry frame \<Rightarrow>
   (nat \<times> entry \<times> rat) option \<Rightarrow> rat \<Rightarrow> (nat \<times> entry \<times> rat) option" where
  "tier2_scan fr er used_v [] best_match best_score = best_match"
| "tier2_scan fr er used_v ((vi, vr) # vs) best_match best_score =
     (if vi \<in> used_v then tier2_scan fr er used_v vs best_match best_score
      else if \<bar>fsub (abs (Amount er)) (abs (Amount vr))\<bar> > 1
        then tier2_scan fr er used_v vs best_match best_score
      else
        let sim = similarity fr (clean_invoice_number (Invoice er))
                    (clean_invoice_number (Invoice vr))
        in if sim \<ge> float64 (9 / 10) \<and> sim > best_score
           then tier2_scan fr er used_v vs (Some (vi, vr, sim)) sim
           else tier2_scan fr er used_v vs best_match best_score)"

fun tier2_loop ::
  "(string \<Rightarrow> string \<Rightarrow> rat) \<Rightarrow> entry frame \<Rightarrow> entry frame \<Rightarrow> match_state \<Rightarrow> match_state" where
  "tier2_loop fr ven [] st = st"
| "tier2_loop fr ven ((ei, er) # es) (matches, used_e, used_v) =
     (if ei \<in> used_e then tier2_loop fr ven es (matches, used_e, used_v)
      else case tier2_scan fr er used_v ven None 0 of
             None \<Rightarrow> tier2_loop fr ven es (matches, used_e, used_v)
           | Some (vi, vr, sim) \<Rightarrow>
               tier2_loop fr ven es
                 (matches @ [tier2_record er vr sim], insert ei used_e, insert vi used_v))"

definition tier2_match ::
  "(string \<Rightarrow> string \<Rightarrow> rat) \<Rightarrow> entry frame \<Rightarrow> entry frame \<Rightarrow>
   match_record list \<times> entry frame \<times> entry frame" where
  "tier2_match fr erp_miss ven_miss =
     (if erp_miss = [] \<or> ven_miss = [] then ([], erp_miss, ven_miss)
      else
        let (matches, used_e, used_v) = tier2_loop fr ven_miss erp_miss ([], {}, {})
        in (matches, unmatched used_e erp_miss, unmatched used_v ven_miss))"

definition tier3_record :: "entry \<Rightarrow> entry \<Rightarrow> rat \<Rightarrow> match_record" where
  "tier3_record er vr sim =
     (let e_amt = \<bar>Amount er\<bar>; v_amt = \<bar>Amount vr\<bar>; diff = \<bar>fsub e_amt v_amt\<bar>
      in \<lparr>erp_invoice = Invoice er, ven_invoice = Invoice vr,
          erp_amount = round2 e_amt, ven_amount = round2 v_amt, difference = round2 diff,
          erp_entity = Entity er, ven_entity = Entity vr,
          status = None, fuzzy_score = Some (round2 sim), match_date = Some (Date er),
          match_type = ''Tier-3''\<rparr>)"

fun tier3_scan ::
  "(string \<Rightarrow> string \<Rightarrow> rat) \<Rightarrow> entry \<Rightarrow> nat set \<Rightarrow> entry frame \<Rightarrow>
   (nat \<times> entry \<times> rat) option" where
  "tier3_scan fr er used_v [] = None"
| "tier3_scan fr er used_v ((vi, vr) # vs) =
     (if vi \<in> used_v then tier3_scan fr er used_v vs
      else if Date vr = [] \<or> Date er \<noteq> Date vr then tier3_scan fr er used_v vs
      else
        let sim = fr (clean_invoice_number (Invoice er)) (clean_invoice_number (Invoice vr))
        in if sim \<ge> float64 (75 / 100) then Some (vi, vr, sim) else tier3_scan fr er used_v vs)"

fun tier3_loop ::
  "(string \<Rightarrow> string \<Rightarrow> rat) \<Rightarrow> entry frame \<Rightarrow> entry frame \<Rightarrow> match_state \<Rightarrow> match_state" where
  "tier3_loop fr ven [] st = st"
| "tier3_loop fr ven ((ei, er) # es) (matches, used_e, used_v) =
     (if ei \<in> used_e then tier3_loop fr ven es (matches, used_e, used_v)
      else if Date er = [] then tier3_loop fr ven es (matches, used_e, used_v)
      else case tier3_scan fr er used_v ven of
             None \<Rightarrow> tier3_loop fr ven es (matches, used_e, used_v)
           | Some (vi, vr, sim) \<Rightarrow>
               tier3_loop fr ven es
                 (matches @ [tier3_record er vr sim], insert ei used_e, insert vi used_v))"

definition tier3_match ::
  "(string \<Rightarrow> string \<Rightarrow> rat) \<Rightarrow> entry frame \<Rightarrow> entry frame \<Rightarrow>
   match_record list \<times> entry frame \<times> entry frame" where
  "tier3_match fr erp_miss ven_miss =
     (if erp_miss = [] \<or> ven_miss = [] then ([], erp_miss, ven_miss)
      else
        let (matches, used_e, used_v) = tier3_loop fr ven_miss erp_miss ([], {}, {})
        in (matches, unmatched used_e erp_miss, unmatched used_v ven_miss))"

subsection \<open>Payments, the module: \<open>match_payments\<close>\<close>

record payment_record =
  pay_erp_amount :: rat
  pay_ven_amount :: rat
  pay_erp_date :: string
  pay_ven_date :: string
  pay_difference :: rat

definition pay_amt :: "erow \<Rightarrow> rat" where
  "pay_amt r = \<bar>amount r\<bar>"

definition payment_match :: "erow \<Rightarrow> erow \<Rightarrow> payment_record" where
  "payment_match e v =
     \<lparr>pay_erp_amount = round2 (pay_amt e), pay_ven_amount = round2 (pay_amt v),
      pay_erp_date = date (src e), pay_ven_date = date (src v),
      pay_difference = round2 \<bar>fsub (pay_amt e) (pay_amt v)\<bar>\<rparr>"

fun payment_scan :: "erow \<Rightarrow> nat set \<Rightarrow> erow frame \<Rightarrow> (nat \<times> erow) option" where
  "payment_scan e used_v [] = None"
| "payment_scan e used_v ((vi, v) # vs) =
     (if vi \<in> used_v then payment_scan e used_v vs
      else if \<bar>fsub (pay_amt e) (pay_amt v)\<bar> \<le> float64 (5 / 100) then Some (vi, v)
      else payment_scan e used_v vs)"

fun payment_loop ::
  "erow frame \<Rightarrow> erow frame \<Rightarrow> payment_record list \<times> nat set \<Rightarrow>
   payment_record list \<times> nat set" where
  "payment_loop ven [] st = st"
| "payment_loop ven ((ei, e) # es) (matched, used_v) =
     (case payment_scan e used_v ven of
        None \<Rightarrow> payment_loop ven es (matched, used_v)
      | Some (vi, v) \<Rightarrow> payment_loop ven es (matched @ [payment_match e v], insert vi used_v))"

definition match_payments :: "erow frame \<Rightarrow> erow frame \<Rightarrow> payment_record list" where
  "match_payments erp_payments ven_payments =
     (if erp_payments = [] \<or> ven_payments = [] then []
      else fst (payment_loop ven_payments erp_payments ([], {})))"

subsection \<open>Consolidation, the Streamlit variant\<close>

text \<open>
  The rows reaching \<open>consolidate\<close> carry the column \<open>__type\<close> written by \<open>doc_type\<close>.
  \<open>consolidate_code\<close> is the body of the loop over the groups for one key; the amount of
  the emitted row is the column \<open>__amt\<close>. Without an invoice column the function returns
  its argument, whose rows have no \<open>__amt\<close>.
\<close>

datatype doc_type = INV | CN | IGNORE | UNKNOWN

record typed_row = row +
  reason :: string
  rtype :: doc_type

definition signed_value :: "typed_row \<Rightarrow> rat" where
  "signed_value r =
     (let d = normalize_number (debit r); c = normalize_number (credit r); raw = d - c
      in if rtype r = CN then - \<bar>raw\<bar> else \<bar>raw\<bar>)"

definition code_group :: "typed_row frame \<Rightarrow> string \<Rightarrow> typed_row frame" where
  "code_group df k = filter (\<lambda>(i, r). clean_invoice_code (invoice r) = k) df"

definition consolidate_code :: "typed_row frame \<Rightarrow> string \<Rightarrow> (typed_row \<times> rat) frame" where
  "consolidate_code df k =
     (let g = code_group df k;
          total = foldl (\<lambda>total (i, r). total + signed_value r) 0 g;
          net_val = round2 total
      in if k = [] \<or> k = ''0'' then []
         else if \<bar>net_val\<bar> = 0 then []
         else case filter (\<lambda>(i, r). rtype r = INV) g of
                (i, r) # _ \<Rightarrow> [(i, (r, \<bar>net_val\<bar>))]
              | [] \<Rightarrow> (case g of (i, r) # _ \<Rightarrow> [(i, (r, \<bar>net_val\<bar>))] | [] \<Rightarrow> []))"

definition consolidate :: "bool \<Rightarrow> typed_row frame \<Rightarrow> (typed_row \<times> rat option) frame" where
  "consolidate has_col df =
     (if \<not> has_col then map (\<lambda>(i, r). (i, (r, None))) df
      else
        let keys = sort (remdups (map (\<lambda>(i, r). clean_invoice_code (invoice r)) df))
        in map (\<lambda>(i, (r, a)). (i, (r, Some a))) (concat (map (consolidate_code df) keys)))"

subsection \<open>The properties, stated from the specification\<close>

text \<open>
  The sum a group of the module nets (by key, over the rows of the table) and the signed
  sum of a group of the Streamlit variant.
\<close>

definition group_total :: "(row \<Rightarrow> rat) \<Rightarrow> table \<Rightarrow> string \<Rightarrow> rat" where
  "group_total amount_func df k =
     sum_list (map amount_func
       (filter (\<lambda>r. clean_invoice_number (invoice r) = k) (rows df)))"

definition signed_total :: "typed_row frame \<Rightarrow> string \<Rightarrow> rat" where
  "signed_total df k = sum_list (map (\<lambda>(i, r). signed_value r) (code_group df k))"

subsection \<open>Auxiliary definitions of the proofs\<close>

text \<open>
  The common shape of the three tier loops and the intermediate frames of
  \<open>consolidate_invoices\<close>.
\<close>

fun greedy ::
  "('e \<Rightarrow> nat set \<Rightarrow> (nat \<times> 'v \<times> 'x) option) \<Rightarrow> ('e \<Rightarrow> 'v \<Rightarrow> 'x \<Rightarrow> 'm) \<Rightarrow> 'e frame \<Rightarrow>
   'm list \<times> nat set \<times> nat set \<Rightarrow> 'm list \<times> nat set \<times> nat set" where
  "greedy pick mk [] st = st"
| "greedy pick mk ((ei, e) # es) (ms, ue, uv) =
     (if ei \<in> ue then greedy pick mk es (ms, ue, uv)
      else case pick e uv of
             None \<Rightarrow> greedy pick mk es (ms, ue, uv)
           | Some (vi, v, x) \<Rightarrow> greedy pick mk es (ms @ [mk e v x], insert ei ue, insert vi uv))"

definition extended :: "(row \<Rightarrow> rat) \<Rightarrow> table \<Rightarrow> erow frame" where
  "extended amount_func df =
     (let ext = map (\<lambda>r. \<lparr>src = r, amount = amount_func r,
                          inv_clean = clean_invoice_number (invoice r)\<rparr>) (rows df)
      in zip [0..<length ext] ext)"

definition invoice_rows_of :: "(row \<Rightarrow> rat) \<Rightarrow> table \<Rightarrow> erow frame" where
  "invoice_rows_of amount_func df =
     filter (\<lambda>(i, r). has_invoice (inv_clean r)) (extended amount_func df)"

subsection \<open>Example data\<close>

definition example_erp :: table where
  "example_erp = \<lparr>invoice_col = True, rows =
     [\<lparr>invoice = ''INV-0042'', debit = ''0'', credit = ''100.00'', date = ''2023-12-31'',
       entity = ''A''\<rparr>,
      \<lparr>invoice = ''INV 77'', debit = ''0'', credit = ''50,00'', date = ''2023-12-30'',
       entity = ''A''\<rparr>,
      \<lparr>invoice = ''INV 77'', debit = ''50'', credit = ''0'', date = ''2023-12-30'',
       entity = ''A''\<rparr>,
      \<lparr>invoice = ''INV 99'', debit = ''0'', credit = ''10'', date = ''2023-12-30'',
       entity = ''A''\<rparr>]\<rparr>"

definition example_ven :: table where
  "example_ven = \<lparr>invoice_col = True, rows =
     [\<lparr>invoice = ''42'', debit = ''100.00'', credit = ''0'', date = ''2023-12-31'',
       entity = ''B''\<rparr>,
      \<lparr>invoice = ''99-B'', debit = ''10.50'', credit = ''0'', date = ''2023-12-31'',
       entity = ''B''\<rparr>,
      \<lparr>invoice = ''55'', debit = ''10.50'', credit = ''0'', date = ''2023-12-31'',
       entity = ''B''\<rparr>]\<rparr>"

definition example_no_invoice :: table where
  "example_no_invoice = \<lparr>invoice_col = False, rows =
     [\<lparr>invoice = [], debit = ''0'', credit = ''100.00'', date = ''2023-12-31'',
       entity = ''A''\<rparr>]\<rparr>"

definition example_ratio :: "string \<Rightarrow> string \<Rightarrow> rat" where
  "example_ratio a b = 92 / 100"

text \<open>
  A table with an invoice column and a single row, with no date and no entity.
\<close>

definition single_row :: "string \<Rightarrow> string \<Rightarrow> string \<Rightarrow> table" where
  "single_row t d c =
     \<lparr>invoice_col = True,
      rows = [\<lparr>invoice = t, debit = d, credit = c, date = [], entity = []\<rparr>]\<rparr>"

definition invoice_row :: typed_row where
  "invoice_row = \<lparr>invoice = ''INV 123'', debit = ''200.00'', credit = ''0'', date = [],
     entity = [], reason = ''invoice'', rtype = INV\<rparr>"

definition credit_note_row :: typed_row where
  "credit_note_row = \<lparr>invoice = ''CN 123'', debit = ''50.00'', credit = ''0'', date = [],
     entity = [], reason = ''credit note'', rtype = CN\<rparr>"

text \<open>
  A run of the three tiers on the example tables, each tier on what the tier before left
  unmatched: all match records, then the final missing frames.
\<close>

definition example_run :: "match_record list \<times> entry frame \<times> entry frame" where
  "example_run =
     (case match_invoices example_erp example_ven of
        Inl err \<Rightarrow> ([], [], [])
      | Inr (tier1, miss_erp, miss_ven, ep, vp) \<Rightarrow>
          (case tier2_match example_ratio miss_erp miss_ven of
             (tier2, miss_erp2, miss_ven2) \<Rightarrow>
               (case tier3_match example_ratio miss_erp2 miss_ven2 of
                  (tier3, final_erp_miss, final_ven_miss) \<Rightarrow>
                    (tier1 @ tier2 @ tier3, final_erp_miss, final_ven_miss))))"

section \<open>Doubles\<close>

text \<open>
  The doubles of some literals of the source and of some amounts, and the differences
  the machine computes for them.
\<close>

lemma float64_examples:
  "float64 (1 / 100) = 5764607523034235 / 2 ^ 59"
  "float64 (1 / 10) = 3602879701896397 / 2 ^ 55"
  "float64 (5 / 100) = 3602879701896397 / 2 ^ 56"
  "float64 (9 / 10) = 8106479329266893 / 2 ^ 53"
  "float64 (3 / 4) = 3 / 4"
  "float64 400 = 400"
  "float64 (- (1 / 3)) = - (6004799503160661 / 2 ^ 54)"
  by code_simp+

lemma fsub_examples:
  "fsub 400 (39999 / 100) = 43980465111 / 2 ^ 42"
  "fsub (25692 / 100) (25592 / 100) = 35184372088833 / 2 ^ 45"
  "fsub 400 (39995 / 100) = 879609302221 / 2 ^ 44"
  "fsub 101 100 = 1"
  by code_simp+

section \<open>Normalization of invoice codes\<close>

lemma digit_not_space: "is_digit c \<Longrightarrow> \<not> is_space c"
  by (auto simp: is_digit_def is_space_def)

lemma upper_not_space: "is_upper c \<Longrightarrow> \<not> is_space c"
  by (auto simp: is_upper_def is_space_def)

lemma digit_not_alpha: "is_digit c \<Longrightarrow> \<not> is_alpha c"
  by (auto simp: is_digit_def is_alpha_def is_upper_def is_lower_def)

lemma digit_not_lower: "is_digit c \<Longrightarrow> \<not> is_lower c"
  by (auto simp: is_digit_def is_lower_def)

lemma digit_not_upper: "is_digit c \<Longrightarrow> \<not> is_upper c"
  by (auto simp: is_digit_def is_upper_def)

lemma upper_not_lower: "is_upper c \<Longrightarrow> \<not> is_lower c"
  by (auto simp: is_upper_def is_lower_def)

lemma digit_not_split_sep: "is_digit c \<Longrightarrow> \<not> is_split_sep c"
  by (auto simp: is_digit_def is_split_sep_def is_space_def code_def)

lemma zero_is_digit: "is_digit CHR ''0''"
  by (simp add: is_digit_def code_def)

lemma strip_id:
  assumes "s \<noteq> []" "\<not> is_space (hd s)" "\<not> is_space (last s)"
  shows "strip s = s"
proof -
  from assms have l: "lstrip s = s"
    by (cases s) (simp_all add: lstrip_def)
  from assms have "dropWhile is_space (rev s) = rev s"
    by (cases "rev s") (auto simp: last_rev hd_rev)
  then show ?thesis
    by (simp add: strip_def rstrip_def l)
qed

lemma sub_years_id: "\<not> has_year s \<Longrightarrow> sub_years T s = s"
  by (induction T s rule: sub_years.induct) auto

lemma split_on_none: "\<forall>c\<in>set s. \<not> P c \<Longrightarrow> split_on P s = [s]"
  by (induction s) auto

lemma year_like_has_year: "year_like s \<Longrightarrow> has_year s"
  by (induction s rule: year_like.induct) (auto simp: is_digit_def)

lemma known_prefixes_letters:
  "\<forall>p\<in>set known_prefixes. p \<noteq> [] \<and> is_upper (to_upper (hd p))"
  by code_simp

lemma doc_prefixes_letters:
  "\<forall>p\<in>set doc_prefixes. p \<noteq> [] \<and> is_lower (hd p)"
  by code_simp

lemma find_None_iff2: "(\<forall>x\<in>set xs. \<not> P x) \<Longrightarrow> find P xs = None"
  by (induction xs) auto

lemma strip_known_prefix_digit:
  assumes "is_digit c"
  shows "strip_known_prefix (c # ys) = c # ys"
proof -
  have "\<not> starts_with_ci p (c # ys)" if "p \<in> set known_prefixes" for p
  proof
    assume m: "starts_with_ci p (c # ys)"
    from that known_prefixes_letters have "p \<noteq> [] \<and> is_upper (to_upper (hd p))"
      by blast
    then obtain a q where p: "p = a # q" and u: "is_upper (to_upper a)"
      by (cases p) auto
    from m p have "to_upper c = to_upper a"
      by (simp add: starts_with_ci_def upper_def)
    moreover from assms have "to_upper c = c"
      by (simp add: to_upper_def digit_not_lower)
    ultimately show False
      using u assms digit_not_upper by auto
  qed
  then have "find (\<lambda>p. starts_with_ci p (c # ys)) known_prefixes = None"
    by (intro find_None_iff2) blast
  then show ?thesis
    by (simp add: strip_known_prefix_def)
qed

lemma strip_doc_prefix_digit:
  assumes "is_digit c"
  shows "strip_doc_prefix (c # ys) = c # ys"
proof -
  have "\<not> starts_with p (c # ys)" if "p \<in> set doc_prefixes" for p
  proof
    assume m: "starts_with p (c # ys)"
    from that doc_prefixes_letters have "p \<noteq> [] \<and> is_lower (hd p)"
      by blast
    then obtain a q where p: "p = a # q" and u: "is_lower a"
      by (cases p) auto
    from m p have "c = a"
      by (simp add: starts_with_def)
    then show False
      using u assms digit_not_lower by auto
  qed
  then have "find (\<lambda>p. starts_with p (c # ys)) doc_prefixes = None"
    by (intro find_None_iff2) blast
  then show ?thesis
    by (simp add: strip_doc_prefix_def)
qed

lemma strip_letter_prefix_digit: "is_digit c \<Longrightarrow> strip_letter_prefix (c # ys) = c # ys"
  by (simp add: strip_letter_prefix_def digit_not_alpha)

lemma clean_invoice_number_chars:
  "\<forall>c\<in>set (clean_invoice_number x). is_upper c \<or> is_digit c"
  by (auto simp: clean_invoice_number_def Let_def lstrip_zeros_def zero_is_digit
           dest!: set_dropWhileD)

lemma clean_invoice_code_chars:
  "\<forall>c\<in>set (clean_invoice_code x). is_digit c"
  by (auto simp: clean_invoice_code_def Let_def zero_is_digit)

lemma clean_invoice_number_fixed:
  assumes "is_digit c" "c \<noteq> CHR ''0''" "\<not> has_year (c # ys)"
    and "\<forall>a\<in>set (c # ys). is_upper a \<or> is_digit a"
  shows "clean_invoice_number (c # ys) = c # ys"
proof -
  let ?y = "c # ys"
  have "\<not> is_space (hd ?y)"
    using assms(1) by (simp add: digit_not_space)
  moreover have "\<not> is_space (last ?y)"
    using assms(4) digit_not_space upper_not_space last_in_set [of ?y] by blast
  ultimately have s: "strip ?y = ?y"
    by (intro strip_id) simp_all
  have u: "upper ?y = ?y"
    unfolding upper_def
    by (rule map_idI) (use assms(4) in \<open>auto simp: to_upper_def digit_not_lower upper_not_lower\<close>)
  have f: "filter (\<lambda>c. is_upper c \<or> is_digit c) ?y = ?y"
    using assms(4) by (intro filter_True) 
  have z: "lstrip_zeros ?y = ?y"
    using assms(2) by (simp add: lstrip_zeros_def)
  show ?thesis
    unfolding clean_invoice_number_def Let_def s u
      strip_known_prefix_digit [OF assms(1)] strip_letter_prefix_digit [OF assms(1)]
      sub_years_id [OF assms(3)] f z
    by simp
qed

lemma clean_invoice_code_fixed:
  assumes "is_digit c" "c \<noteq> CHR ''0''" "\<not> has_year (c # ys)"
    and "\<forall>a\<in>set (c # ys). is_digit a"
  shows "clean_invoice_code (c # ys) = c # ys"
proof -
  let ?y = "c # ys"
  have "\<not> is_space (hd ?y)"
    using assms(1) by (simp add: digit_not_space)
  moreover have "\<not> is_space (last ?y)"
    using assms(4) digit_not_space last_in_set [of ?y] by blast
  ultimately have s: "strip ?y = ?y"
    by (intro strip_id) simp_all
  have u: "lower ?y = ?y"
    unfolding lower_def
    by (rule map_idI) (use assms(4) in \<open>auto simp: to_lower_def digit_not_upper\<close>)
  have sp: "split_on is_split_sep ?y = [?y]"
    using assms(4) by (intro split_on_none) (auto simp: digit_not_split_sep)
  have ad: "all_digits ?y"
    using assms(4) by (simp add: all_digits_def list_all_iff)
  have ny: "\<not> year_like ?y"
    using assms(3) year_like_has_year by blast
  have z: "lstrip_zeros ?y = ?y"
    using assms(2) by (simp add: lstrip_zeros_def)
  have f1: "filter (\<lambda>c. is_lower c \<or> is_digit c) ?y = ?y"
    using assms(4) by (intro filter_True) auto
  have f2: "filter is_digit ?y = ?y"
    using assms(4) by (intro filter_True) 
  have pick: "(case find (\<lambda>p. all_digits p \<and> \<not> year_like p) (rev [?y]) of
                 Some p \<Rightarrow> lstrip_zeros p | None \<Rightarrow> ?y) = ?y"
    using ad ny z by simp
  show ?thesis
    unfolding clean_invoice_code_def Let_def s u sp pick
      strip_doc_prefix_digit [OF assms(1)] sub_years_id [OF assms(3)] f1 z f2
    by simp
qed

text \<open>
  Claim C6 says that the normalization of invoice codes is idempotent for every input.
  It is not, in either variant: the module strips a letter prefix anew at every
  application (\<open>"XXXXA"\<close> gives \<open>"XA"\<close>, which gives \<open>"0"\<close>), and the Streamlit variant
  strips leading zeros of a digit run only at the second application (\<open>"a0b1"\<close> gives
  \<open>"01"\<close>, which gives \<open>"1"\<close>).
\<close>

theorem clean_not_idempotent:
  "clean_invoice_number (clean_invoice_number ''XXXXA'') \<noteq> clean_invoice_number ''XXXXA'' \<and>
   clean_invoice_code (clean_invoice_code ''a0b1'') \<noteq> clean_invoice_code ''a0b1''"
  by code_simp

text \<open>
  Claim C6, as amended: in both variants, normalizing twice gives the same result as
  normalizing once whenever the first result is settled, that is, empty, the sentinel
  \<open>"0"\<close>, or a code that begins with a digit other than zero and contains no token \<open>20dd\<close>.
\<close>

theorem clean_idempotent_when_settled:
  "(settled (clean_invoice_number x) \<longrightarrow>
      clean_invoice_number (clean_invoice_number x) = clean_invoice_number x) \<and>
   (settled (clean_invoice_code x) \<longrightarrow>
      clean_invoice_code (clean_invoice_code x) = clean_invoice_code x)"
proof (intro conjI impI)
  assume st: "settled (clean_invoice_number x)"
  show "clean_invoice_number (clean_invoice_number x) = clean_invoice_number x"
  proof (cases "clean_invoice_number x")
    case Nil
    then show ?thesis by (simp add: clean_invoice_number_def)
  next
    case (Cons c ys)
    show ?thesis
    proof (cases "clean_invoice_number x = ''0''")
      case True
      have "clean_invoice_number ''0'' = ''0''" by code_simp
      with True show ?thesis by simp
    next
      case False
      with st Cons have "is_digit c" "c \<noteq> CHR ''0''" "\<not> has_year (c # ys)"
        by (auto simp: settled_def)
      moreover have "\<forall>a\<in>set (c # ys). is_upper a \<or> is_digit a"
        using clean_invoice_number_chars [of x] Cons by simp
      ultimately show ?thesis
        using clean_invoice_number_fixed Cons by simp
    qed
  qed
next
  assume st: "settled (clean_invoice_code x)"
  show "clean_invoice_code (clean_invoice_code x) = clean_invoice_code x"
  proof (cases "clean_invoice_code x")
    case Nil
    then show ?thesis by (simp add: clean_invoice_code_def)
  next
    case (Cons c ys)
    show ?thesis
    proof (cases "clean_invoice_code x = ''0''")
      case True
      have "clean_invoice_code ''0'' = ''0''" by code_simp
      with True show ?thesis by simp
    next
      case False
      with st Cons have "is_digit c" "c \<noteq> CHR ''0''" "\<not> has_year (c # ys)"
        by (auto simp: settled_def)
      moreover have "\<forall>a\<in>set (c # ys). is_digit a"
        using clean_invoice_code_chars [of x] Cons by simp
      ultimately show ?thesis
        using clean_invoice_code_fixed Cons by simp
    qed
  qed
qed

theorem clean_idempotent_when_settled_witness:
  "settled (clean_invoice_number ''INV-0042'') \<and>
   clean_invoice_number (clean_invoice_number ''INV-0042'') = ''42'' \<and>
   settled (clean_invoice_code ''INV-0042'') \<and>
   clean_invoice_code (clean_invoice_code ''INV-0042'') = ''42''"
proof -
  have a: "clean_invoice_number ''INV-0042'' = ''42''" by code_simp
  have b: "clean_invoice_code ''INV-0042'' = ''42''" by code_simp
  have s: "settled ''42''" by code_simp
  show ?thesis
    using clean_idempotent_when_settled [of "''INV-0042''"] a b s by simp
qed

subsection \<open>The steps of \<open>clean_invoice_code\<close> on codes that differ only in letters\<close>

























section \<open>Numbers\<close>

lemma digits_ne:
  assumes "list_all is_digit a"
  shows "CHR '','' \<notin> set a" "CHR ''.'' \<notin> set a" "CHR ''-'' \<notin> set a"
  using assms by (auto simp: list_all_iff is_digit_def code_def)


lemma count_digits [simp]: "list_all is_digit a \<Longrightarrow> count_char CHR '','' a = 0"
  "list_all is_digit a \<Longrightarrow> count_char CHR ''.'' a = 0"
  using digits_ne [of a] by (auto simp: count_char_def filter_empty_conv)


lemma count_char_Cons [simp]: "count_char c (x # b) = (if x = c then 1 else 0) + count_char c b"
  by (simp add: count_char_def)

lemma remove_char_append [simp]: "remove_char c (a @ b) = remove_char c a @ remove_char c b"
  by (simp add: remove_char_def)

lemma replace_char_append [simp]:
  "replace_char c d (a @ b) = replace_char c d a @ replace_char c d b"
  by (simp add: replace_char_def)

lemma remove_char_Cons [simp]:
  "remove_char c (x # b) = (if x = c then remove_char c b else x # remove_char c b)"
  by (simp add: remove_char_def)

lemma replace_char_Cons [simp]:
  "replace_char c d (x # b) = (if x = c then d else x) # replace_char c d b"
  by (simp add: replace_char_def)



























section \<open>Consolidation\<close>

lemma consolidate_invoices_Inr:
  assumes "consolidate_invoices f df = Inr (cons, pays)" "invoice_col df"
  shows "cons = concat (map (consolidate_group (invoice_rows_of f df))
                  (sort (remdups (map (\<lambda>(i, r). inv_clean r) (invoice_rows_of f df)))))"
    and "pays = filter (\<lambda>(i, r). \<not> has_invoice (inv_clean r)) (extended f df)"
  using assms
  by (auto simp: consolidate_invoices_def Let_def invoice_rows_of_def extended_def
           split: if_splits)

lemma consolidate_invoices_no_col:
  "\<not> invoice_col df \<Longrightarrow> consolidate_invoices f df = Inr ([], [])"
  by (simp add: consolidate_invoices_def)

lemma extended_row:
  "(i, r) \<in> set (extended f df) \<Longrightarrow>
   inv_clean r = clean_invoice_number (invoice (src r)) \<and> amount r = f (src r) \<and>
   src r \<in> set (rows df)"
  by (auto simp: extended_def Let_def set_zip)

lemma extended_labels: "distinct (map fst (extended f df))"
  by (simp add: extended_def Let_def)

lemma invoice_rows_labels: "distinct (map fst (invoice_rows_of f df))"
  by (simp add: invoice_rows_of_def distinct_map_filter extended_labels)

lemma consolidate_group_entry:
  assumes "(i, c) \<in> set (consolidate_group ir k)"
  shows "(i, base c) \<in> set ir" "inv_clean (base c) = k" "has_invoice k"
    "net_amount c = round2 (sum_list (map (\<lambda>(i, r). amount r)
                      (filter (\<lambda>(i, r). inv_clean r = k) ir)))"
    "1 / 100 \<le> \<bar>net_amount c\<bar>"
proof -
  let ?g = "filter (\<lambda>(i, r). inv_clean r = k) ir"
  from assms obtain j r rest where g: "?g = (j, r) # rest"
    by (cases ?g) (auto simp: consolidate_group_def Let_def split: if_splits)
  then have "(j, r) \<in> set ?g" by simp
  then have m: "(j, r) \<in> set ir" "inv_clean r = k" by auto
  from assms g have e: "i = j" "base c = r"
    by (auto simp: consolidate_group_def Let_def split: if_splits)
  show "(i, base c) \<in> set ir" "inv_clean (base c) = k"
    using m e by simp_all
  show "has_invoice k"
    using assms by (auto simp: consolidate_group_def Let_def has_invoice_def split: if_splits)
  show "net_amount c = round2 (sum_list (map (\<lambda>(i, r). amount r) ?g))"
    using assms g by (auto simp: consolidate_group_def Let_def split: if_splits)
  show "1 / 100 \<le> \<bar>net_amount c\<bar>"
    using assms g by (auto simp: consolidate_group_def Let_def split: if_splits)
qed

lemma consolidate_group_length: "length (consolidate_group ir k) \<le> 1"
  by (auto simp: consolidate_group_def Let_def split: list.splits)

lemma distinct_concat_keys:
  assumes "\<And>k x. x \<in> set (g k) \<Longrightarrow> h x = k" "\<And>k. length (g k) \<le> 1"
  shows "distinct ks \<Longrightarrow> distinct (map h (concat (map g ks)))"
proof (induction ks)
  case Nil then show ?case by simp
next
  case (Cons k ks)
  have one: "distinct (map h (g k))"
    using assms(2) [of k] by (cases "g k") (auto simp: le_Suc_eq)
  have "h x \<noteq> h y" if "x \<in> set (g k)" "y \<in> set (concat (map g ks))" for x y
  proof -
    from that(2) obtain k' where "k' \<in> set ks" "y \<in> set (g k')" by auto
    with that(1) assms(1) Cons.prems show ?thesis by auto
  qed
  with one Cons show ?case by (auto simp: image_iff)
qed

lemma distinct_map_outer: "distinct (map f ys) \<Longrightarrow> distinct ys"
  by (simp add: distinct_map)

lemma consolidated_props:
  assumes "consolidate_invoices f df = Inr (cons, pays)"
  shows "distinct (map (\<lambda>(i, c). inv_clean (base c)) cons)"
    and "distinct (map fst cons)"
    and "distinct (map (\<lambda>(i, c). invoice (src (base c))) cons)"
    and "\<And>i c. (i, c) \<in> set cons \<Longrightarrow>
           inv_clean (base c) = clean_invoice_number (invoice (src (base c))) \<and>
           has_invoice (inv_clean (base c)) \<and>
           (i, base c) \<in> set (invoice_rows_of f df) \<and>
           1 / 100 \<le> \<bar>net_amount c\<bar> \<and>
           net_amount c = round2 (sum_list (map (\<lambda>(i, r). amount r)
                      (filter (\<lambda>(i, r). inv_clean r = inv_clean (base c))
                         (invoice_rows_of f df))))"
proof -
  let ?ir = "invoice_rows_of f df"
  let ?ks = "sort (remdups (map (\<lambda>(i, r). inv_clean r) ?ir))"
  let ?h = "\<lambda>(i, c). inv_clean (base c)"
  show ent: "\<And>i c. (i, c) \<in> set cons \<Longrightarrow>
           inv_clean (base c) = clean_invoice_number (invoice (src (base c))) \<and>
           has_invoice (inv_clean (base c)) \<and>
           (i, base c) \<in> set (invoice_rows_of f df) \<and>
           1 / 100 \<le> \<bar>net_amount c\<bar> \<and>
           net_amount c = round2 (sum_list (map (\<lambda>(i, r). amount r)
                      (filter (\<lambda>(i, r). inv_clean r = inv_clean (base c))
                         (invoice_rows_of f df))))"
  proof -
    fix i c assume m: "(i, c) \<in> set cons"
    then have col: "invoice_col df"
      using assms by (auto simp: consolidate_invoices_def split: if_splits)
    from m consolidate_invoices_Inr(1) [OF assms col]
    obtain k where k: "(i, c) \<in> set (consolidate_group ?ir k)" by auto
    note e = consolidate_group_entry [OF k]
    from e(1) have "(i, base c) \<in> set (extended f df)"
      by (simp add: invoice_rows_of_def)
    from extended_row [OF this] e
    show "inv_clean (base c) = clean_invoice_number (invoice (src (base c))) \<and>
           has_invoice (inv_clean (base c)) \<and>
           (i, base c) \<in> set (invoice_rows_of f df) \<and>
           1 / 100 \<le> \<bar>net_amount c\<bar> \<and>
           net_amount c = round2 (sum_list (map (\<lambda>(i, r). amount r)
                      (filter (\<lambda>(i, r). inv_clean r = inv_clean (base c))
                         (invoice_rows_of f df))))"
      by simp
  qed
  show dk: "distinct (map ?h cons)"
  proof (cases "invoice_col df")
    case False
    with assms show ?thesis by (simp add: consolidate_invoices_no_col)
  next
    case True
    have "distinct (map ?h (concat (map (consolidate_group ?ir) ?ks)))"
    proof (rule distinct_concat_keys)
      show "distinct ?ks" by simp
      show "\<And>k. length (consolidate_group ?ir k) \<le> 1" by (rule consolidate_group_length)
      show "\<And>k x. x \<in> set (consolidate_group ?ir k) \<Longrightarrow> ?h x = k"
        using consolidate_group_entry(2) by fastforce
    qed
    with consolidate_invoices_Inr(1) [OF assms True] show ?thesis by simp
  qed
  have "map ?h cons = map (\<lambda>t. clean_invoice_number t) (map (\<lambda>(i, c). invoice (src (base c))) cons)"
    using ent by auto
  with dk show "distinct (map (\<lambda>(i, c). invoice (src (base c))) cons)"
    using distinct_map_outer by metis
  have "map ?h cons = map (\<lambda>i. inv_clean (the (map_of ?ir i))) (map fst cons)"
  proof -
    have "?h x = inv_clean (the (map_of ?ir (fst x)))" if "x \<in> set cons" for x
    proof -
      obtain i c where x: "x = (i, c)" by (cases x)
      with that ent have "(i, base c) \<in> set ?ir" by blast
      then have "map_of ?ir i = Some (base c)"
        using invoice_rows_labels by simp
      with x show ?thesis by simp
    qed
    then show ?thesis by simp
  qed
  with dk show "distinct (map fst cons)"
    using distinct_map_outer by metis
qed

lemma zip_filter_snd:
  "length is = length ys \<Longrightarrow>
   map snd (filter (\<lambda>(i, r). Q r) (zip is ys)) = filter Q ys"
  by (induction "is" ys rule: list_induct2) auto

lemma group_sum:
  assumes "has_invoice k"
  shows "sum_list (map (\<lambda>(i, r). amount r)
           (filter (\<lambda>(i, r). inv_clean r = k) (invoice_rows_of f df)))
         = group_total f df k"
proof -
  let ?mk = "\<lambda>r. \<lparr>src = r, amount = f r, inv_clean = clean_invoice_number (invoice r)\<rparr>"
  let ?ext = "map ?mk (rows df)"
  have "filter (\<lambda>(i, r). inv_clean r = k) (invoice_rows_of f df)
        = filter (\<lambda>(i, r). inv_clean r = k) (extended f df)"
    unfolding invoice_rows_of_def filter_filter
    using assms by (intro filter_cong) auto
  then have "map snd (filter (\<lambda>(i, r). inv_clean r = k) (invoice_rows_of f df))
        = filter (\<lambda>r. inv_clean r = k) ?ext"
    by (simp add: extended_def Let_def zip_filter_snd)
  also have "\<dots> = map ?mk (filter (\<lambda>r. clean_invoice_number (invoice r) = k) (rows df))"
    by (simp add: filter_map comp_def)
  finally have "map amount (map snd (filter (\<lambda>(i, r). inv_clean r = k) (invoice_rows_of f df)))
        = map f (filter (\<lambda>r. clean_invoice_number (invoice r) = k) (rows df))"
    by (simp add: comp_def)
  moreover have "(\<lambda>(i, r). amount r) = amount \<circ> (snd :: nat \<times> erow \<Rightarrow> erow)"
    by (simp add: fun_eq_iff)
  ultimately show ?thesis
    by (simp add: group_total_def)
qed

lemma cancelled_not_consolidated:
  assumes "consolidate_invoices f df = Inr (cons, pays)" "has_invoice k"
    and "\<bar>round2 (group_total f df k)\<bar> < 1 / 100"
  shows "\<forall>(i, c)\<in>set cons. inv_clean (base c) \<noteq> k"
    and "\<forall>(i, r)\<in>set pays. inv_clean r \<noteq> k"
    and "\<forall>(i, c)\<in>set cons. clean_invoice_number (invoice (src (base c))) \<noteq> k"
proof -
  show a: "\<forall>(i, c)\<in>set cons. inv_clean (base c) \<noteq> k"
  proof (clarify)
    fix i c assume m: "(i, c) \<in> set cons" and k: "k = inv_clean (base c)"
    from consolidated_props(4) [OF assms(1) m]
    have ge: "1 / 100 \<le> \<bar>net_amount c\<bar>"
      and net: "net_amount c = round2 (sum_list (map (\<lambda>(i, r). amount r)
                      (filter (\<lambda>(i, r). inv_clean r = inv_clean (base c))
                         (invoice_rows_of f df))))"
      by blast+
    from net have "net_amount c = round2 (group_total f df k)"
      unfolding k [symmetric] group_sum [OF assms(2)] .
    with ge assms(3) show False by simp
  qed
  show "\<forall>(i, c)\<in>set cons. clean_invoice_number (invoice (src (base c))) \<noteq> k"
    using a consolidated_props(4) [OF assms(1)] by fastforce
  show "\<forall>(i, r)\<in>set pays. inv_clean r \<noteq> k"
  proof (cases "invoice_col df")
    case True
    from consolidate_invoices_Inr(2) [OF assms(1) True] assms(2) show ?thesis by auto
  next
    case False
    with assms(1) show ?thesis by (simp add: consolidate_invoices_no_col)
  qed
qed

section \<open>The matching loops use every entry once\<close>

lemma unmatched_insert:
  assumes "distinct (map fst V)" "(vi, v) \<in> set V" "vi \<notin> uv"
  shows "mset (map f (unmatched uv V)) = {#f (vi, v)#} + mset (map f (unmatched (insert vi uv) V))"
  using assms
proof (induction V)
  case Nil then show ?case by simp
next
  case (Cons a V)
  obtain i r where a: "a = (i, r)" by (cases a)
  show ?case
  proof (cases "a = (vi, v)")
    case True
    with Cons.prems a have "vi \<notin> fst ` set V" by auto
    then have "unmatched (insert vi uv) V = unmatched uv V"
      unfolding unmatched_def by (intro filter_cong) force+
    with True Cons.prems show ?thesis by (simp add: unmatched_def)
  next
    case False
    with Cons.prems a have in_V: "(vi, v) \<in> set V" and "i \<noteq> vi"
      by (auto simp: image_iff)
    with Cons a show ?thesis by (simp add: unmatched_def)
  qed
qed

lemma greedy_partition:
  assumes sound: "\<And>e uv vi v x. pick e uv = Some (vi, v, x) \<Longrightarrow> (vi, v) \<in> set V \<and> vi \<notin> uv"
    and pe: "\<And>e v x. fe (mk e v x) = ie e"
    and pv: "\<And>e v x. fv (mk e v x) = iv v"
    and dV: "distinct (map fst V)"
  shows "distinct (map fst es) \<Longrightarrow> fst ` set es \<inter> ue = {} \<Longrightarrow>
         greedy pick mk es (ms, ue, uv) = (ms', ue', uv') \<Longrightarrow>
         mset (map fe ms') + mset (map (\<lambda>(i, e). ie e) (unmatched ue' es))
           = mset (map fe ms) + mset (map (\<lambda>(i, e). ie e) es) \<and>
         mset (map fv ms') + mset (map (\<lambda>(i, v). iv v) (unmatched uv' V))
           = mset (map fv ms) + mset (map (\<lambda>(i, v). iv v) (unmatched uv V)) \<and>
         ue \<subseteq> ue' \<and> ue' - ue \<subseteq> fst ` set es"
proof (induction es arbitrary: ms ue uv)
  case Nil
  then show ?case by (simp add: unmatched_def)
next
  case (Cons a es)
  obtain ei e where a: "a = (ei, e)" by (cases a)
  from Cons.prems a have nin: "ei \<notin> ue" and d: "distinct (map fst es)"
    and fresh: "ei \<notin> fst ` set es" by auto
  show ?case
  proof (cases "pick e uv")
    case None
    with Cons.prems a nin have r: "greedy pick mk es (ms, ue, uv) = (ms', ue', uv')" by simp
    from Cons.prems a have "fst ` set es \<inter> ue = {}" by auto
    from Cons.IH [OF d this r]
    have ih: "mset (map fe ms') + mset (map (\<lambda>(i, e). ie e) (unmatched ue' es))
           = mset (map fe ms) + mset (map (\<lambda>(i, e). ie e) es)"
      "mset (map fv ms') + mset (map (\<lambda>(i, v). iv v) (unmatched uv' V))
           = mset (map fv ms) + mset (map (\<lambda>(i, v). iv v) (unmatched uv V))"
      "ue \<subseteq> ue'" "ue' - ue \<subseteq> fst ` set es" by auto
    from ih(4) nin fresh have "ei \<notin> ue'" by auto
    then have "unmatched ue' (a # es) = a # unmatched ue' es"
      by (simp add: unmatched_def a)
    with ih a show ?thesis by auto
  next
    case (Some t)
    obtain vi v x where t: "t = (vi, v, x)" by (cases t)
    with Some sound have sv: "(vi, v) \<in> set V" "vi \<notin> uv" by auto
    from Cons.prems a nin Some t
    have r: "greedy pick mk es (ms @ [mk e v x], insert ei ue, insert vi uv) = (ms', ue', uv')"
      by simp
    from Cons.prems a fresh have "fst ` set es \<inter> insert ei ue = {}" by auto
    from Cons.IH [OF d this r]
    have ih: "mset (map fe ms') + mset (map (\<lambda>(i, e). ie e) (unmatched ue' es))
           = mset (map fe (ms @ [mk e v x])) + mset (map (\<lambda>(i, e). ie e) es)"
      "mset (map fv ms') + mset (map (\<lambda>(i, v). iv v) (unmatched uv' V))
           = mset (map fv (ms @ [mk e v x])) + mset (map (\<lambda>(i, v). iv v) (unmatched (insert vi uv) V))"
      "insert ei ue \<subseteq> ue'" "ue' - insert ei ue \<subseteq> fst ` set es" by auto
    from ih(3) have "unmatched ue' (a # es) = unmatched ue' es"
      by (auto simp: unmatched_def a)
    moreover note unmatched_insert [OF dV sv, of "\<lambda>(i, v). iv v"]
    ultimately show ?thesis
      using ih a by (auto simp: pe pv)
  qed
qed

lemma tier1_scan_sound:
  "tier1_scan e uv V = Some (vi, v) \<Longrightarrow> (vi, v) \<in> set V \<and> vi \<notin> uv"
  by (induction e uv V rule: tier1_scan.induct) (auto split: if_splits)

lemma tier2_scan_sound:
  "tier2_scan fr er uv V bm bs = Some t \<Longrightarrow>
   bm = Some t \<or> ((fst t, fst (snd t)) \<in> set V \<and> fst t \<notin> uv)"
  by (induction fr er uv V bm bs rule: tier2_scan.induct)
     (auto simp: Let_def split: if_splits)

lemma tier3_scan_sound:
  "tier3_scan fr er uv V = Some (vi, v, x) \<Longrightarrow> (vi, v) \<in> set V \<and> vi \<notin> uv"
  by (induction fr er uv V rule: tier3_scan.induct) (auto simp: Let_def split: if_splits)

lemma tier1_loop_greedy:
  "tier1_loop V es st =
   greedy (\<lambda>e uv. map_option (\<lambda>(i, v). (i, v, ())) (tier1_scan e uv V))
     (\<lambda>e v x. tier1_record e v) es st"
  by (induction V es st rule: tier1_loop.induct) (auto split: option.splits)

lemma tier2_loop_greedy:
  "tier2_loop fr V es st =
   greedy (\<lambda>e uv. tier2_scan fr e uv V None 0) tier2_record es st"
  by (induction fr V es st rule: tier2_loop.induct) (auto split: option.splits)

lemma tier3_loop_greedy:
  "tier3_loop fr V es st =
   greedy (\<lambda>e uv. if Date e = [] then None else tier3_scan fr e uv V) tier3_record es st"
  by (induction fr V es st rule: tier3_loop.induct) (auto split: option.splits)

lemma unmatched_empty [simp]: "unmatched {} df = df"
  by (simp add: unmatched_def)

lemma tier1_loop_partition:
  assumes "distinct (map fst E)" "distinct (map fst V)"
    and "tier1_loop V E ([], {}, {}) = (ms, ue, uv)"
  shows "mset (map erp_invoice ms) + mset (map (\<lambda>(i, c). invoice (src (base c))) (unmatched ue E))
         = mset (map (\<lambda>(i, c). invoice (src (base c))) E)"
    and "mset (map ven_invoice ms) + mset (map (\<lambda>(i, c). invoice (src (base c))) (unmatched uv V))
         = mset (map (\<lambda>(i, c). invoice (src (base c))) V)"
proof -
  let ?pick = "\<lambda>e uv. map_option (\<lambda>(i, v). (i, v, ())) (tier1_scan e uv V)"
  have r: "greedy ?pick (\<lambda>e v x. tier1_record e v) E ([], {}, {}) = (ms, ue, uv)"
    using assms(3) by (simp add: tier1_loop_greedy)
  have s: "\<And>e uv vi v x. ?pick e uv = Some (vi, v, x) \<Longrightarrow> (vi, v) \<in> set V \<and> vi \<notin> uv"
    using tier1_scan_sound by fastforce
  have pe: "\<And>e v x. erp_invoice (tier1_record e v) = invoice (src (base e))"
    and pv: "\<And>e v x. ven_invoice (tier1_record e v) = invoice (src (base v))"
    by (simp_all add: tier1_record_def Let_def)
  have fresh: "fst ` set E \<inter> {} = {}" by simp
  note p = greedy_partition [where pick = ?pick and V = V and mk = "\<lambda>e v x. tier1_record e v"
      and fe = erp_invoice and fv = ven_invoice and ie = "\<lambda>c. invoice (src (base c))" and iv = "\<lambda>c. invoice (src (base c))"
      and es = E and ms = "[]" and ue = "{}" and uv = "{}",
      OF s pe pv assms(2) assms(1) fresh r]
  from p show
    "mset (map erp_invoice ms) + mset (map (\<lambda>(i, c). invoice (src (base c))) (unmatched ue E))
         = mset (map (\<lambda>(i, c). invoice (src (base c))) E)"
    "mset (map ven_invoice ms) + mset (map (\<lambda>(i, c). invoice (src (base c))) (unmatched uv V))
         = mset (map (\<lambda>(i, c). invoice (src (base c))) V)"
    by simp_all
qed

lemma tier2_loop_partition:
  assumes "distinct (map fst E)" "distinct (map fst V)"
    and "tier2_loop fr V E ([], {}, {}) = (ms, ue, uv)"
  shows "mset (map erp_invoice ms) + mset (map (\<lambda>(i, c). Invoice c) (unmatched ue E))
         = mset (map (\<lambda>(i, c). Invoice c) E)"
    and "mset (map ven_invoice ms) + mset (map (\<lambda>(i, c). Invoice c) (unmatched uv V))
         = mset (map (\<lambda>(i, c). Invoice c) V)"
proof -
  let ?pick = "\<lambda>e uv. tier2_scan fr e uv V None 0"
  have r: "greedy ?pick (tier2_record) E ([], {}, {}) = (ms, ue, uv)"
    using assms(3) by (simp add: tier2_loop_greedy)
  have s: "\<And>e uv vi v x. ?pick e uv = Some (vi, v, x) \<Longrightarrow> (vi, v) \<in> set V \<and> vi \<notin> uv"
    using tier2_scan_sound by fastforce
  have pe: "\<And>e v x. erp_invoice (tier2_record e v x) = Invoice e"
    and pv: "\<And>e v x. ven_invoice (tier2_record e v x) = Invoice v"
    by (simp_all add: tier2_record_def Let_def)
  have fresh: "fst ` set E \<inter> {} = {}" by simp
  note p = greedy_partition [where pick = ?pick and V = V and mk = "tier2_record"
      and fe = erp_invoice and fv = ven_invoice and ie = "Invoice" and iv = "Invoice"
      and es = E and ms = "[]" and ue = "{}" and uv = "{}",
      OF s pe pv assms(2) assms(1) fresh r]
  from p show
    "mset (map erp_invoice ms) + mset (map (\<lambda>(i, c). Invoice c) (unmatched ue E))
         = mset (map (\<lambda>(i, c). Invoice c) E)"
    "mset (map ven_invoice ms) + mset (map (\<lambda>(i, c). Invoice c) (unmatched uv V))
         = mset (map (\<lambda>(i, c). Invoice c) V)"
    by simp_all
qed

lemma tier3_loop_partition:
  assumes "distinct (map fst E)" "distinct (map fst V)"
    and "tier3_loop fr V E ([], {}, {}) = (ms, ue, uv)"
  shows "mset (map erp_invoice ms) + mset (map (\<lambda>(i, c). Invoice c) (unmatched ue E))
         = mset (map (\<lambda>(i, c). Invoice c) E)"
    and "mset (map ven_invoice ms) + mset (map (\<lambda>(i, c). Invoice c) (unmatched uv V))
         = mset (map (\<lambda>(i, c). Invoice c) V)"
proof -
  let ?pick = "\<lambda>e uv. if Date e = [] then None else tier3_scan fr e uv V"
  have r: "greedy ?pick (tier3_record) E ([], {}, {}) = (ms, ue, uv)"
    using assms(3) by (simp add: tier3_loop_greedy)
  have s: "\<And>e uv vi v x. ?pick e uv = Some (vi, v, x) \<Longrightarrow> (vi, v) \<in> set V \<and> vi \<notin> uv"
    using tier3_scan_sound by (fastforce split: if_splits)
  have pe: "\<And>e v x. erp_invoice (tier3_record e v x) = Invoice e"
    and pv: "\<And>e v x. ven_invoice (tier3_record e v x) = Invoice v"
    by (simp_all add: tier3_record_def Let_def)
  have fresh: "fst ` set E \<inter> {} = {}" by simp
  note p = greedy_partition [where pick = ?pick and V = V and mk = "tier3_record"
      and fe = erp_invoice and fv = ven_invoice and ie = "Invoice" and iv = "Invoice"
      and es = E and ms = "[]" and ue = "{}" and uv = "{}",
      OF s pe pv assms(2) assms(1) fresh r]
  from p show
    "mset (map erp_invoice ms) + mset (map (\<lambda>(i, c). Invoice c) (unmatched ue E))
         = mset (map (\<lambda>(i, c). Invoice c) E)"
    "mset (map ven_invoice ms) + mset (map (\<lambda>(i, c). Invoice c) (unmatched uv V))
         = mset (map (\<lambda>(i, c). Invoice c) V)"
    by simp_all
qed

lemma distinct_unmatched: "distinct (map fst df) \<Longrightarrow> distinct (map fst (unmatched u df))"
  by (simp add: unmatched_def distinct_map_filter)

lemma tier2_match_partition:
  assumes "distinct (map fst E)" "distinct (map fst V)"
    and "tier2_match fr E V = (ms, re, rv)"
  shows "mset (map erp_invoice ms) + mset (map (\<lambda>(i, c). Invoice c) re)
         = mset (map (\<lambda>(i, c). Invoice c) E)"
    and "mset (map ven_invoice ms) + mset (map (\<lambda>(i, c). Invoice c) rv)
         = mset (map (\<lambda>(i, c). Invoice c) V)"
    and "distinct (map fst re)" "distinct (map fst rv)"
proof -
  obtain ms' ue uv where l: "tier2_loop fr V E ([], {}, {}) = (ms', ue, uv)"
    by (cases "tier2_loop fr V E ([], {}, {})") auto
  show "mset (map erp_invoice ms) + mset (map (\<lambda>(i, c). Invoice c) re)
         = mset (map (\<lambda>(i, c). Invoice c) E)"
    using assms(3) l tier2_loop_partition(1) [OF assms(1,2) l]
    by (auto simp: tier2_match_def split: if_splits)
  show "mset (map ven_invoice ms) + mset (map (\<lambda>(i, c). Invoice c) rv)
         = mset (map (\<lambda>(i, c). Invoice c) V)"
    using assms(3) l tier2_loop_partition(2) [OF assms(1,2) l]
    by (auto simp: tier2_match_def split: if_splits)
  show "distinct (map fst re)" "distinct (map fst rv)"
    using assms l by (auto simp: tier2_match_def distinct_unmatched split: if_splits)
qed

lemma tier3_match_partition:
  assumes "distinct (map fst E)" "distinct (map fst V)"
    and "tier3_match fr E V = (ms, re, rv)"
  shows "mset (map erp_invoice ms) + mset (map (\<lambda>(i, c). Invoice c) re)
         = mset (map (\<lambda>(i, c). Invoice c) E)"
    and "mset (map ven_invoice ms) + mset (map (\<lambda>(i, c). Invoice c) rv)
         = mset (map (\<lambda>(i, c). Invoice c) V)"
proof -
  obtain ms' ue uv where l: "tier3_loop fr V E ([], {}, {}) = (ms', ue, uv)"
    by (cases "tier3_loop fr V E ([], {}, {})") auto
  show "mset (map erp_invoice ms) + mset (map (\<lambda>(i, c). Invoice c) re)
         = mset (map (\<lambda>(i, c). Invoice c) E)"
    using assms(3) l tier3_loop_partition(1) [OF assms(1,2) l]
    by (auto simp: tier3_match_def split: if_splits)
  show "mset (map ven_invoice ms) + mset (map (\<lambda>(i, c). Invoice c) rv)
         = mset (map (\<lambda>(i, c). Invoice c) V)"
    using assms(3) l tier3_loop_partition(2) [OF assms(1,2) l]
    by (auto simp: tier3_match_def split: if_splits)
qed

lemma format_missing_labels: "distinct (map fst (format_missing df))"
  by (simp add: format_missing_def reset_index_def)

lemma format_missing_invoices:
  "map (\<lambda>(i, c). Invoice c) (format_missing df) = map (\<lambda>(i, c). invoice (src (base c))) df"
proof -
  have "map snd (format_missing df) = map (\<lambda>(i, c). missing_entry c) df"
    by (simp add: format_missing_def reset_index_def case_prod_unfold)
  moreover have "map (\<lambda>(i, c). Invoice c) (format_missing df)
      = map Invoice (map snd (format_missing df))"
    by (simp add: case_prod_unfold)
  ultimately show ?thesis
    by (simp add: case_prod_unfold missing_entry_def)
qed

lemma format_missing_Nil: "format_missing [] = []"
  by (simp add: format_missing_def reset_index_def)

lemma format_missing_mset:
  "image_mset (\<lambda>(i, c). Invoice c) (mset (format_missing df))
   = image_mset (\<lambda>(i, c). invoice (src (base c))) (mset df)"
  using arg_cong [OF format_missing_invoices [of df], of mset] by simp

lemma match_invoices_Inr:
  assumes "match_invoices erp_df ven_df = Inr (matched, miss_erp, miss_ven, ep, vp)"
  obtains E V where
    "consolidate_invoices calculate_amount_erp erp_df = Inr (E, ep)"
    "consolidate_invoices calculate_amount_vendor ven_df = Inr (V, vp)"
  using assms
  by (auto simp: match_invoices_def Let_def split: sum.splits prod.splits if_splits)

lemma match_invoices_partition:
  assumes "match_invoices erp_df ven_df = Inr (matched, miss_erp, miss_ven, ep, vp)"
    and "consolidate_invoices calculate_amount_erp erp_df = Inr (E, ep')"
    and "consolidate_invoices calculate_amount_vendor ven_df = Inr (V, vp')"
  shows "mset (map erp_invoice matched) + mset (map (\<lambda>(i, c). Invoice c) miss_erp)
         = mset (map (\<lambda>(i, c). invoice (src (base c))) E)"
    and "mset (map ven_invoice matched) + mset (map (\<lambda>(i, c). Invoice c) miss_ven)
         = mset (map (\<lambda>(i, c). invoice (src (base c))) V)"
    and "distinct (map fst miss_erp)" "distinct (map fst miss_ven)"
proof -
  note dE = consolidated_props(2) [OF assms(2)]
  note dV = consolidated_props(2) [OF assms(3)]
  obtain ms ue uv where l: "tier1_loop V E ([], {}, {}) = (ms, ue, uv)"
    by (cases "tier1_loop V E ([], {}, {})") auto
  note p = tier1_loop_partition [OF dE dV l]
  have r: "(matched, miss_erp, miss_ven) =
      (if E = [] \<and> V = [] then ([], [], [])
       else if E \<noteq> [] \<and> V \<noteq> []
         then (ms, format_missing (unmatched ue E), format_missing (unmatched uv V))
         else ([], format_missing E, format_missing V))"
    using assms l by (auto simp: match_invoices_def Let_def split: if_splits)
  show "mset (map erp_invoice matched) + mset (map (\<lambda>(i, c). Invoice c) miss_erp)
         = mset (map (\<lambda>(i, c). invoice (src (base c))) E)"
    using r p(1) by (auto simp: format_missing_mset format_missing_Nil split: if_splits)
  show "mset (map ven_invoice matched) + mset (map (\<lambda>(i, c). Invoice c) miss_ven)
         = mset (map (\<lambda>(i, c). invoice (src (base c))) V)"
    using r p(2) by (auto simp: format_missing_mset format_missing_Nil split: if_splits)
  show "distinct (map fst miss_erp)" "distinct (map fst miss_ven)"
    using r by (auto simp: format_missing_labels split: if_splits)
qed

lemma in_mset_sum_left:
  "mset xs + mset ys = mset zs \<Longrightarrow> set xs \<subseteq> set zs \<and> set ys \<subseteq> set zs"
  by (metis mset_append set_append set_mset_mset sup_ge1 sup_ge2)

lemma distinct_parts:
  "mset xs + mset ys = mset zs \<Longrightarrow> distinct zs \<Longrightarrow> distinct (xs @ ys)"
  by (metis mset_append mset_eq_imp_distinct_iff)

text \<open>
  Claim C1: in a run of tier 1, tier 2 and tier 3, each tier working on what the tier
  before it left unmatched, no consolidated invoice is in more than one match record,
  and every consolidated invoice is in exactly one match record or in the final missing
  frame of its side. A consolidated invoice is identified by its invoice text, which is
  what a match record and a missing frame carry; the invoice texts of a side are
  pairwise different, the texts of the records of all tiers followed by the texts of
  the final missing frame have no repetition, and they are, as a multiset, exactly the
  texts of the consolidated invoices of the side.
\<close>

theorem consume_once:
  assumes "consolidate_invoices calculate_amount_erp erp_df = Inr (erp_consolidated, ep)"
    and "consolidate_invoices calculate_amount_vendor ven_df = Inr (ven_consolidated, vp)"
    and "match_invoices erp_df ven_df = Inr (tier1, miss_erp, miss_ven, ep', vp')"
    and "tier2_match fr miss_erp miss_ven = (tier2, miss_erp2, miss_ven2)"
    and "tier3_match fr miss_erp2 miss_ven2 = (tier3, final_erp_miss, final_ven_miss)"
  shows "distinct (map (\<lambda>(i, c). invoice (src (base c))) erp_consolidated) \<and>
         distinct (map (\<lambda>(i, c). invoice (src (base c))) ven_consolidated) \<and>
         distinct (map erp_invoice (tier1 @ tier2 @ tier3)
                     @ map (\<lambda>(i, e). Invoice e) final_erp_miss) \<and>
         distinct (map ven_invoice (tier1 @ tier2 @ tier3)
                     @ map (\<lambda>(i, e). Invoice e) final_ven_miss) \<and>
         mset (map erp_invoice (tier1 @ tier2 @ tier3))
           + mset (map (\<lambda>(i, e). Invoice e) final_erp_miss)
           = mset (map (\<lambda>(i, c). invoice (src (base c))) erp_consolidated) \<and>
         mset (map ven_invoice (tier1 @ tier2 @ tier3))
           + mset (map (\<lambda>(i, e). Invoice e) final_ven_miss)
           = mset (map (\<lambda>(i, c). invoice (src (base c))) ven_consolidated)"
proof -
  note t1 = match_invoices_partition [OF assms(3) assms(1) assms(2)]
  note t2 = tier2_match_partition [OF t1(3) t1(4) assms(4)]
  note t3 = tier3_match_partition [OF t2(3) t2(4) assms(5)]
  note dE = consolidated_props(3) [OF assms(1)]
  note dV = consolidated_props(3) [OF assms(2)]
  have e: "mset (map erp_invoice (tier1 @ tier2 @ tier3))
           + mset (map (\<lambda>(i, e). Invoice e) final_erp_miss)
           = mset (map (\<lambda>(i, c). invoice (src (base c))) erp_consolidated)"
    using t1(1) t2(1) t3(1) by (simp add: ac_simps)
  have v: "mset (map ven_invoice (tier1 @ tier2 @ tier3))
           + mset (map (\<lambda>(i, e). Invoice e) final_ven_miss)
           = mset (map (\<lambda>(i, c). invoice (src (base c))) ven_consolidated)"
    using t1(2) t2(2) t3(2) by (simp add: ac_simps)
  show ?thesis
    using e v dE dV distinct_parts [OF e dE] distinct_parts [OF v dV]
    by blast
qed

theorem consume_once_witness:
  "\<not> isl (match_invoices example_erp example_ven) \<and>
   map erp_invoice (fst example_run) = [''INV-0042'', ''INV 99''] \<and>
   map ven_invoice (fst example_run) = [''42'', ''99-B''] \<and>
   map (\<lambda>(i, e). Invoice e) (fst (snd example_run)) = [] \<and>
   map (\<lambda>(i, e). Invoice e) (snd (snd example_run)) = [''55''] \<and>
   mset (map erp_invoice (fst example_run))
     + mset (map (\<lambda>(i, e). Invoice e) (fst (snd example_run)))
     = mset (map (\<lambda>(i, c). invoice (src (base c)))
         (fst (projr (consolidate_invoices calculate_amount_erp example_erp)))) \<and>
   mset (map ven_invoice (fst example_run))
     + mset (map (\<lambda>(i, e). Invoice e) (snd (snd example_run)))
     = mset (map (\<lambda>(i, c). invoice (src (base c)))
         (fst (projr (consolidate_invoices calculate_amount_vendor example_ven))))"
proof -
  let ?CE = "consolidate_invoices calculate_amount_erp example_erp"
  let ?CV = "consolidate_invoices calculate_amount_vendor example_ven"
  let ?M = "match_invoices example_erp example_ven"
  have e1: "\<not> isl ?CE" and e2: "\<not> isl ?CV" and e3: "\<not> isl ?M"
    by code_simp+
  have v: "map erp_invoice (fst example_run) = [''INV-0042'', ''INV 99'']"
    "map ven_invoice (fst example_run) = [''42'', ''99-B'']"
    "map (\<lambda>(i, e). Invoice e) (fst (snd example_run)) = []"
    "map (\<lambda>(i, e). Invoice e) (snd (snd example_run)) = [''55'']"
    by code_simp+
  from e1 obtain E ep where c1: "?CE = Inr (E, ep)"
    by (cases ?CE) auto
  from e2 obtain V vp where c2: "?CV = Inr (V, vp)"
    by (cases ?CV) auto
  from e3 obtain x where "?M = Inr x"
    by (cases ?M) auto
  then obtain t1 me mv ep' vp' where m: "?M = Inr (t1, me, mv, ep', vp')"
    by (cases x) auto
  obtain t2 me2 mv2 where s2: "tier2_match example_ratio me mv = (t2, me2, mv2)"
    by (cases "tier2_match example_ratio me mv") auto
  obtain t3 fe fv where s3: "tier3_match example_ratio me2 mv2 = (t3, fe, fv)"
    by (cases "tier3_match example_ratio me2 mv2") auto
  have r: "example_run = (t1 @ t2 @ t3, fe, fv)"
    by (simp add: example_run_def m s2 s3)
  note t = consume_once [OF c1 c2 m s2 s3]
  from t [THEN conjunct2, THEN conjunct2, THEN conjunct2, THEN conjunct2] have
    "mset (map erp_invoice (fst example_run))
       + mset (map (\<lambda>(i, e). Invoice e) (fst (snd example_run)))
     = mset (map (\<lambda>(i, c). invoice (src (base c))) (fst (projr ?CE)))"
    "mset (map ven_invoice (fst example_run))
       + mset (map (\<lambda>(i, e). Invoice e) (snd (snd example_run)))
     = mset (map (\<lambda>(i, c). invoice (src (base c))) (fst (projr ?CV)))"
    unfolding r c1 c2 by simp_all
  with e3 v show ?thesis by blast
qed

text \<open>
  Claim C4: for either side and every usable normalized code whose group of lines nets,
  after rounding, to an absolute value strictly below 0.01, the group produces no
  consolidated invoice, and no line of it is in an output of \<open>match_invoices\<close>: no match
  record, no missing entry and no payment row of that side has this code.
\<close>

theorem cancelled_group_dropped:
  assumes "match_invoices erp_df ven_df =
             Inr (matched, miss_erp, miss_ven, erp_payments, ven_payments)"
    and "has_invoice k"
  shows "(\<bar>round2 (group_total calculate_amount_erp erp_df k)\<bar> < 1 / 100 \<longrightarrow>
            (\<forall>cons pays. consolidate_invoices calculate_amount_erp erp_df = Inr (cons, pays) \<longrightarrow>
               (\<forall>(i, c)\<in>set cons. inv_clean (base c) \<noteq> k)) \<and>
            (\<forall>m\<in>set matched. clean_invoice_number (erp_invoice m) \<noteq> k) \<and>
            (\<forall>(i, e)\<in>set miss_erp. clean_invoice_number (Invoice e) \<noteq> k) \<and>
            (\<forall>(i, r)\<in>set erp_payments. inv_clean r \<noteq> k)) \<and>
         (\<bar>round2 (group_total calculate_amount_vendor ven_df k)\<bar> < 1 / 100 \<longrightarrow>
            (\<forall>cons pays. consolidate_invoices calculate_amount_vendor ven_df = Inr (cons, pays) \<longrightarrow>
               (\<forall>(i, c)\<in>set cons. inv_clean (base c) \<noteq> k)) \<and>
            (\<forall>m\<in>set matched. clean_invoice_number (ven_invoice m) \<noteq> k) \<and>
            (\<forall>(i, e)\<in>set miss_ven. clean_invoice_number (Invoice e) \<noteq> k) \<and>
            (\<forall>(i, r)\<in>set ven_payments. inv_clean r \<noteq> k))"
proof -
  from assms(1) obtain E V where
    E: "consolidate_invoices calculate_amount_erp erp_df = Inr (E, erp_payments)" and
    V: "consolidate_invoices calculate_amount_vendor ven_df = Inr (V, ven_payments)"
    by (rule match_invoices_Inr)
  note p = match_invoices_partition [OF assms(1) E V]
  note se = in_mset_sum_left [OF p(1)]
  note sv = in_mset_sum_left [OF p(2)]
  have erp: "(\<forall>cons pays. consolidate_invoices calculate_amount_erp erp_df = Inr (cons, pays) \<longrightarrow>
               (\<forall>(i, c)\<in>set cons. inv_clean (base c) \<noteq> k)) \<and>
            (\<forall>m\<in>set matched. clean_invoice_number (erp_invoice m) \<noteq> k) \<and>
            (\<forall>(i, e)\<in>set miss_erp. clean_invoice_number (Invoice e) \<noteq> k) \<and>
            (\<forall>(i, r)\<in>set erp_payments. inv_clean r \<noteq> k)"
    if c: "\<bar>round2 (group_total calculate_amount_erp erp_df k)\<bar> < 1 / 100"
  proof -
    note n = cancelled_not_consolidated [OF E assms(2) c]
    have t: "clean_invoice_number t \<noteq> k" if "t \<in> set (map (\<lambda>(i, c). invoice (src (base c))) E)" for t
    proof -
      from that obtain i c where "(i, c) \<in> set E" "t = invoice (src (base c))" by auto
      with n(3) show ?thesis by blast
    qed
    have a: "clean_invoice_number (erp_invoice m) \<noteq> k" if "m \<in> set matched" for m
    proof -
      from that have "erp_invoice m \<in> set (map erp_invoice matched)" by simp
      with se show ?thesis using t by blast
    qed
    have b: "clean_invoice_number (Invoice e) \<noteq> k" if "(i, e) \<in> set miss_erp" for i e
    proof -
      from that have "Invoice e \<in> set (map (\<lambda>(i, c). Invoice c) miss_erp)" by force
      with se show ?thesis using t by blast
    qed
    have c: "\<forall>(i, c)\<in>set cons. inv_clean (base c) \<noteq> k"
      if "consolidate_invoices calculate_amount_erp erp_df = Inr (cons, pays)" for cons pays
      using that E n(1) by simp
    from a b c n(2) show ?thesis by blast
  qed
  have ven: "(\<forall>cons pays. consolidate_invoices calculate_amount_vendor ven_df = Inr (cons, pays) \<longrightarrow>
               (\<forall>(i, c)\<in>set cons. inv_clean (base c) \<noteq> k)) \<and>
            (\<forall>m\<in>set matched. clean_invoice_number (ven_invoice m) \<noteq> k) \<and>
            (\<forall>(i, e)\<in>set miss_ven. clean_invoice_number (Invoice e) \<noteq> k) \<and>
            (\<forall>(i, r)\<in>set ven_payments. inv_clean r \<noteq> k)"
    if c: "\<bar>round2 (group_total calculate_amount_vendor ven_df k)\<bar> < 1 / 100"
  proof -
    note n = cancelled_not_consolidated [OF V assms(2) c]
    have t: "clean_invoice_number t \<noteq> k" if "t \<in> set (map (\<lambda>(i, c). invoice (src (base c))) V)" for t
    proof -
      from that obtain i c where "(i, c) \<in> set V" "t = invoice (src (base c))" by auto
      with n(3) show ?thesis by blast
    qed
    have a: "clean_invoice_number (ven_invoice m) \<noteq> k" if "m \<in> set matched" for m
    proof -
      from that have "ven_invoice m \<in> set (map ven_invoice matched)" by simp
      with sv show ?thesis using t by blast
    qed
    have b: "clean_invoice_number (Invoice e) \<noteq> k" if "(i, e) \<in> set miss_ven" for i e
    proof -
      from that have "Invoice e \<in> set (map (\<lambda>(i, c). Invoice c) miss_ven)" by force
      with sv show ?thesis using t by blast
    qed
    have c: "\<forall>(i, c)\<in>set cons. inv_clean (base c) \<noteq> k"
      if "consolidate_invoices calculate_amount_vendor ven_df = Inr (cons, pays)" for cons pays
      using that V n(1) by simp
    from a b c n(2) show ?thesis by blast
  qed
  from erp ven show ?thesis by blast
qed

theorem cancelled_group_dropped_witness:
  "\<not> isl (match_invoices example_erp example_ven) \<and> has_invoice ''77'' \<and>
   \<bar>round2 (group_total calculate_amount_erp example_erp ''77'')\<bar> < 1 / 100 \<and>
   clean_invoice_number ''INV 77'' = ''77'' \<and>
   ''INV 77'' \<notin> erp_invoice ` set (fst (projr (match_invoices example_erp example_ven))) \<and>
   ''INV 77'' \<notin> (\<lambda>(i, e). Invoice e) `
       set (fst (snd (projr (match_invoices example_erp example_ven))))"
proof -
  let ?M = "match_invoices example_erp example_ven"
  have e3: "\<not> isl ?M" by code_simp
  have h: "has_invoice ''77''" by code_simp
  have z: "\<bar>round2 (group_total calculate_amount_erp example_erp ''77'')\<bar> < 1 / 100"
    by code_simp
  have c: "clean_invoice_number ''INV 77'' = ''77''" by code_simp
  from e3 obtain x where "?M = Inr x"
    by (cases ?M) auto
  then obtain t1 me mv ep vp where m: "?M = Inr (t1, me, mv, ep, vp)"
    by (cases x) auto
  note t = cancelled_group_dropped [OF m h, THEN conjunct1, rule_format, OF z]
  from t have a: "\<forall>m\<in>set t1. clean_invoice_number (erp_invoice m) \<noteq> ''77''"
    and b: "\<forall>(i, e)\<in>set me. clean_invoice_number (Invoice e) \<noteq> ''77''"
    by blast+
  from a c have "''INV 77'' \<notin> erp_invoice ` set t1" by auto
  moreover from b c have "''INV 77'' \<notin> (\<lambda>(i, e). Invoice e) ` set me" by auto
  ultimately show ?thesis
    using e3 h z c by (simp add: m)
qed

text \<open>
  Claim C9: for a table in which no invoice column was detected, consolidation returns
  an empty consolidated frame (and an empty payment frame) and raises no error; the
  tier-1 matcher then returns no match, nothing missing on that side, and every
  consolidated invoice of the other side as missing.
\<close>

theorem missing_invoice_column:
  assumes "\<not> invoice_col erp_df"
  shows "consolidate_invoices amount_func erp_df = Inr ([], []) \<and>
         (consolidate_invoices calculate_amount_vendor ven_df = Inr (ven_consolidated, ven_payments) \<longrightarrow>
            match_invoices erp_df ven_df
              = Inr ([], [], format_missing ven_consolidated, [], ven_payments))"
  using assms
  by (auto simp: consolidate_invoices_no_col match_invoices_def format_missing_Nil)

theorem missing_invoice_column_witness:
  "\<not> invoice_col example_no_invoice \<and>
   consolidate_invoices calculate_amount_erp example_no_invoice = Inr ([], []) \<and>
   \<not> isl (consolidate_invoices calculate_amount_vendor example_ven) \<and>
   match_invoices example_no_invoice example_ven
     = Inr ([], [],
         format_missing (fst (projr (consolidate_invoices calculate_amount_vendor example_ven))),
         [], snd (projr (consolidate_invoices calculate_amount_vendor example_ven))) \<and>
   map (\<lambda>(i, e). Invoice e)
     (format_missing (fst (projr (consolidate_invoices calculate_amount_vendor example_ven))))
     = [''42'', ''55'', ''99-B'']"
proof -
  let ?CV = "consolidate_invoices calculate_amount_vendor example_ven"
  have h: "\<not> invoice_col example_no_invoice"
    by (simp add: example_no_invoice_def)
  have e2: "\<not> isl ?CV" by code_simp
  have v: "map (\<lambda>(i, e). Invoice e) (format_missing (fst (projr ?CV))) = [''42'', ''55'', ''99-B'']"
    by code_simp
  from e2 obtain V vp where c2: "?CV = Inr (V, vp)"
    by (cases ?CV) auto
  note t = missing_invoice_column [OF h, of calculate_amount_erp example_ven V vp]
  from t c2 have "consolidate_invoices calculate_amount_erp example_no_invoice = Inr ([], [])"
    "match_invoices example_no_invoice example_ven
       = Inr ([], [], format_missing (fst (projr ?CV)), [], snd (projr ?CV))"
    by simp_all
  with h e2 v show ?thesis by blast
qed

section \<open>Amounts at the thresholds of the matchers\<close>

text \<open>
  Claim C2 says that tier 1 pairs an ERP invoice with the first vendor invoice of equal
  normalized code and gives the record the status "Perfect Match" when the absolute
  difference of the amounts is strictly below 0.01, and "Difference Match" otherwise.
  The module tests \<open>diff < 0.01\<close> on doubles. For the amounts 399.99 and 400.00, which are
  one cent apart, the machine's difference is \<open>43980465111 / 2 ^ 42\<close>, just below the
  double of 0.01, and \<open>match_invoices\<close> reports "Perfect Match" in a record whose
  difference is 0.01. For the amounts 100.00 and 100.01, one cent apart as well, it
  reports "Difference Match".
\<close>

theorem tier1_status_one_cent_apart:
  "match_invoices (single_row ''INV-1'' [] ''399.99'') (single_row ''INV-1'' ''400.00'' []) =
     Inr ([\<lparr>erp_invoice = ''INV-1'', ven_invoice = ''INV-1'',
            erp_amount = 39999 / 100, ven_amount = 400, difference = 1 / 100,
            erp_entity = [], ven_entity = [], status = Some ''Perfect Match'',
            fuzzy_score = None, match_date = None, match_type = ''Tier-1''\<rparr>],
          [], [], [], []) \<and>
   match_invoices (single_row ''INV-1'' [] ''100.00'') (single_row ''INV-1'' ''100.01'' []) =
     Inr ([\<lparr>erp_invoice = ''INV-1'', ven_invoice = ''INV-1'',
            erp_amount = 100, ven_amount = 10001 / 100, difference = 1 / 100,
            erp_entity = [], ven_entity = [], status = Some ''Difference Match'',
            fuzzy_score = None, match_date = None, match_type = ''Tier-1''\<rparr>],
          [], [], [], [])"
  by code_simp

text \<open>
  Claim C3 says that in tier 2 every unused vendor entry whose amount differs from the
  ERP amount by at most 1.00 is a candidate, and that the candidate of highest
  similarity, at least 0.90, is chosen. The module tests \<open>abs(e_amt - v_amt) > 1.00\<close> on
  doubles. The invoices \<open>"INV 99"\<close> of 255.92 and \<open>"99-B"\<close> of 256.92 are left unmatched by
  tier 1 (their codes are \<open>"99"\<close> and \<open>"99B"\<close>), their amounts are exactly 1.00 apart and
  their similarity is 1, the first code being a substring of the second; the machine's
  difference is \<open>35184372088833 / 2 ^ 45\<close>, above 1, and \<open>tier2_match\<close> pairs nothing. With
  the amounts 100.00 and 101.00, 1.00 apart as well, it pairs the two invoices. This
  holds for every \<open>fuzzy_ratio\<close>.
\<close>

theorem tier2_window_one_unit_apart:
  "match_invoices (single_row ''INV 99'' [] ''255.92'') (single_row ''99-B'' ''256.92'' []) =
     Inr ([],
          [(0, \<lparr>Invoice = ''INV 99'', Amount = 25592 / 100, Date = [], Entity = []\<rparr>)],
          [(0, \<lparr>Invoice = ''99-B'', Amount = 25692 / 100, Date = [], Entity = []\<rparr>)],
          [], []) \<and>
   similarity fr (clean_invoice_number ''INV 99'') (clean_invoice_number ''99-B'') = 1 \<and>
   tier2_match fr
       [(0, \<lparr>Invoice = ''INV 99'', Amount = 25592 / 100, Date = [], Entity = []\<rparr>)]
       [(0, \<lparr>Invoice = ''99-B'', Amount = 25692 / 100, Date = [], Entity = []\<rparr>)] =
     ([],
      [(0, \<lparr>Invoice = ''INV 99'', Amount = 25592 / 100, Date = [], Entity = []\<rparr>)],
      [(0, \<lparr>Invoice = ''99-B'', Amount = 25692 / 100, Date = [], Entity = []\<rparr>)]) \<and>
   match_invoices (single_row ''INV 99'' [] ''100.00'') (single_row ''99-B'' ''101.00'' []) =
     Inr ([],
          [(0, \<lparr>Invoice = ''INV 99'', Amount = 100, Date = [], Entity = []\<rparr>)],
          [(0, \<lparr>Invoice = ''99-B'', Amount = 101, Date = [], Entity = []\<rparr>)],
          [], []) \<and>
   tier2_match fr
       [(0, \<lparr>Invoice = ''INV 99'', Amount = 100, Date = [], Entity = []\<rparr>)]
       [(0, \<lparr>Invoice = ''99-B'', Amount = 101, Date = [], Entity = []\<rparr>)] =
     ([\<lparr>erp_invoice = ''INV 99'', ven_invoice = ''99-B'',
        erp_amount = 100, ven_amount = 101, difference = 1,
        erp_entity = [], ven_entity = [], status = None,
        fuzzy_score = Some 1, match_date = None, match_type = ''Tier-2''\<rparr>],
      [], [])"
  by code_simp

text \<open>
  Claim C8 says that the payment matcher pairs an ERP payment line with the first unused
  vendor payment line whose absolute amount differs from its own by at most 0.05. The
  module tests \<open>abs(e_amt - v_amt) <= 0.05\<close> on doubles. For a payment of 399.95 in the
  ERP table and one of 400.00 in the vendor table, which are exactly 0.05 apart, the
  machine's difference is \<open>879609302221 / 2 ^ 44\<close>, above the double of 0.05, and
  \<open>match_payments\<close>, on the payment rows that \<open>match_invoices\<close> sets aside, pairs nothing.
  For payments of 100.00 and 100.05, 0.05 apart as well, it pairs the two lines.
\<close>

theorem payment_tolerance_five_cents_apart:
  "match_invoices (single_row ''-'' ''399.95'' []) (single_row ''-'' [] ''400.00'') =
     Inr ([], [], [],
          [(0, \<lparr>src = \<lparr>invoice = ''-'', debit = ''399.95'', credit = [], date = [],
                        entity = []\<rparr>,
                amount = - (39995 / 100), inv_clean = ''0''\<rparr>)],
          [(0, \<lparr>src = \<lparr>invoice = ''-'', debit = [], credit = ''400.00'', date = [],
                        entity = []\<rparr>,
                amount = - 400, inv_clean = ''0''\<rparr>)]) \<and>
   match_payments
       [(0, \<lparr>src = \<lparr>invoice = ''-'', debit = ''399.95'', credit = [], date = [],
                     entity = []\<rparr>,
             amount = - (39995 / 100), inv_clean = ''0''\<rparr>)]
       [(0, \<lparr>src = \<lparr>invoice = ''-'', debit = [], credit = ''400.00'', date = [],
                     entity = []\<rparr>,
             amount = - 400, inv_clean = ''0''\<rparr>)] = [] \<and>
   match_invoices (single_row ''-'' ''100.00'' []) (single_row ''-'' [] ''100.05'') =
     Inr ([], [], [],
          [(0, \<lparr>src = \<lparr>invoice = ''-'', debit = ''100.00'', credit = [], date = [],
                        entity = []\<rparr>,
                amount = - 100, inv_clean = ''0''\<rparr>)],
          [(0, \<lparr>src = \<lparr>invoice = ''-'', debit = [], credit = ''100.05'', date = [],
                        entity = []\<rparr>,
                amount = - (10005 / 100), inv_clean = ''0''\<rparr>)]) \<and>
   match_payments
       [(0, \<lparr>src = \<lparr>invoice = ''-'', debit = ''100.00'', credit = [], date = [],
                     entity = []\<rparr>,
             amount = - 100, inv_clean = ''0''\<rparr>)]
       [(0, \<lparr>src = \<lparr>invoice = ''-'', debit = [], credit = ''100.05'', date = [],
                     entity = []\<rparr>,
             amount = - (10005 / 100), inv_clean = ''0''\<rparr>)] =
     [\<lparr>pay_erp_amount = 100, pay_ven_amount = 10005 / 100, pay_erp_date = [],
       pay_ven_date = [], pay_difference = 5 / 100\<rparr>]"
  by code_simp

section \<open>Consolidation in the Streamlit variant\<close>

lemma foldl_signed:
  "foldl (\<lambda>total (i, r). total + signed_value r) a g
   = a + sum_list (map (\<lambda>(i, r). signed_value r) g)"
  by (induction g arbitrary: a) (auto simp: case_prod_unfold)

lemma foldl_signed_zero:
  "foldl (\<lambda>total (i, r). total + signed_value r) 0 g
   = sum_list (map (\<lambda>(i, r). signed_value r) g)"
  by (simp add: foldl_signed)

lemma consolidate_code_entry:
  assumes "(i, (r, a)) \<in> set (consolidate_code df k)"
  shows "a = \<bar>round2 (signed_total df k)\<bar>" "a \<noteq> 0" "(i, r) \<in> set df"
    "clean_invoice_code (invoice r) = k" "k \<noteq> []" "k \<noteq> ''0''"
proof -
  let ?g = "code_group df k"
  let ?n = "round2 (signed_total df k)"
  have eq: "consolidate_code df k =
      (if k = [] \<or> k = ''0'' then []
       else if \<bar>?n\<bar> = 0 then []
       else case filter (\<lambda>(i, r). rtype r = INV) ?g of
              (i, r) # _ \<Rightarrow> [(i, (r, \<bar>?n\<bar>))]
            | [] \<Rightarrow> (case ?g of (i, r) # _ \<Rightarrow> [(i, (r, \<bar>?n\<bar>))] | [] \<Rightarrow> []))"
    unfolding consolidate_code_def Let_def foldl_signed_zero signed_total_def by simp
  from assms have k: "k \<noteq> []" "k \<noteq> ''0''" and n: "\<bar>?n\<bar> \<noteq> 0"
    unfolding eq by (auto split: if_splits)
  from assms k n have c: "(i, (r, a)) \<in> set
      (case filter (\<lambda>(i, r). rtype r = INV) ?g of
         (i, r) # _ \<Rightarrow> [(i, (r, \<bar>?n\<bar>))]
       | [] \<Rightarrow> (case ?g of (i, r) # _ \<Rightarrow> [(i, (r, \<bar>?n\<bar>))] | [] \<Rightarrow> []))"
    unfolding eq by simp
  have a: "a = \<bar>?n\<bar> \<and> (i, r) \<in> set ?g"
  proof (cases "filter (\<lambda>(i, r). rtype r = INV) ?g")
    case Nil
    with c show ?thesis by (cases ?g) auto
  next
    case (Cons x xs)
    then have "x \<in> set (filter (\<lambda>(i, r). rtype r = INV) ?g)" by simp
    then have "x \<in> set ?g" by simp
    with c Cons show ?thesis by (cases x) auto
  qed
  show "a = \<bar>?n\<bar>" "a \<noteq> 0" "(i, r) \<in> set df" "clean_invoice_code (invoice r) = k"
    "k \<noteq> []" "k \<noteq> ''0''"
    using a n k by (auto simp: code_group_def)
qed

lemma consolidate_code_emits:
  assumes "k \<noteq> []" "k \<noteq> ''0''" "code_group df k \<noteq> []" "round2 (signed_total df k) \<noteq> 0"
  shows "\<exists>i r. (i, (r, \<bar>round2 (signed_total df k)\<bar>)) \<in> set (consolidate_code df k) \<and>
           clean_invoice_code (invoice r) = k"
proof -
  let ?g = "code_group df k"
  let ?n = "round2 (signed_total df k)"
  have eq: "consolidate_code df k =
      (case filter (\<lambda>(i, r). rtype r = INV) ?g of
              (i, r) # _ \<Rightarrow> [(i, (r, \<bar>?n\<bar>))]
            | [] \<Rightarrow> (case ?g of (i, r) # _ \<Rightarrow> [(i, (r, \<bar>?n\<bar>))] | [] \<Rightarrow> []))"
    unfolding consolidate_code_def Let_def foldl_signed_zero signed_total_def
    using assms(1,2,4) by (simp add: signed_total_def)
  have "\<exists>i r. (i, r) \<in> set ?g \<and> (i, (r, \<bar>?n\<bar>)) \<in> set (consolidate_code df k)"
  proof (cases "filter (\<lambda>(i, r). rtype r = INV) ?g")
    case Nil
    from assms(3) obtain i r rest where g: "?g = (i, r) # rest"
      by (cases ?g) auto
    with Nil eq show ?thesis by (intro exI [of _ i] exI [of _ r]) simp
  next
    case (Cons x xs)
    obtain i r where x: "x = (i, r)" by (cases x)
    from Cons have "x \<in> set (filter (\<lambda>(i, r). rtype r = INV) ?g)" by simp
    then have "(i, r) \<in> set ?g" using x by simp
    with Cons eq x show ?thesis by (intro exI [of _ i] exI [of _ r]) simp
  qed
  then show ?thesis by (auto simp: code_group_def)
qed

lemma in_concat_map: "x \<in> set (g k) \<Longrightarrow> k \<in> set ks \<Longrightarrow> x \<in> set (concat (map g ks))"
  by auto

lemma consolidate_emits:
  assumes "k \<noteq> []" "k \<noteq> ''0''" "code_group df k \<noteq> []" "round2 (signed_total df k) \<noteq> 0"
  shows "\<exists>i r. (i, (r, Some \<bar>round2 (signed_total df k)\<bar>)) \<in> set (consolidate True df) \<and>
           clean_invoice_code (invoice r) = k"
proof -
  from assms(3) obtain x xs where "code_group df k = x # xs"
    by (cases "code_group df k") simp_all
  then have "x \<in> set (code_group df k)"
    by simp
  then have xm: "x \<in> set df" "clean_invoice_code (invoice (snd x)) = k"
    by (simp_all add: code_group_def case_prod_unfold)
  obtain j m where x: "x = (j, m)"
    by (cases x)
  from xm x have "(j, m) \<in> set df" "clean_invoice_code (invoice m) = k"
    by simp_all
  then have k: "k \<in> set (sort (remdups (map (\<lambda>(i, r). clean_invoice_code (invoice r)) df)))"
    by force
  from consolidate_code_emits [OF assms] obtain i r where
    e: "(i, (r, \<bar>round2 (signed_total df k)\<bar>)) \<in> set (consolidate_code df k)"
       "clean_invoice_code (invoice r) = k" by blast
  from e(1) k have "(i, (r, \<bar>round2 (signed_total df k)\<bar>))
      \<in> set (concat (map (consolidate_code df)
           (sort (remdups (map (\<lambda>(i, r). clean_invoice_code (invoice r)) df)))))"
    by (rule in_concat_map)
  then have "(i, (r, Some \<bar>round2 (signed_total df k)\<bar>)) \<in> set (consolidate True df)"
    by (force simp: consolidate_def Let_def)
  with e(2) show ?thesis by blast
qed

text \<open>
  Claim C5 says that the net amount of the emitted consolidated invoice equals the
  rounded signed sum of its group. The Streamlit variant, the one with the sign rule by
  document type, emits the absolute value of that rounded sum (the column \<open>__amt\<close>, "for
  matching and display we use absolute net amount"): the group of a single credit note
  of 50.00 has the signed sum -50 and is emitted with the amount 50.
\<close>

theorem consolidated_amount_signed_counterexample:
  "consolidate True [(0, credit_note_row)] = [(0, (credit_note_row, Some 50))] \<and>
   round2 (signed_total [(0, credit_note_row)]
     (clean_invoice_code (invoice credit_note_row))) = - 50"
  by code_simp

text \<open>
  Claim C5, as amended: in the Streamlit variant every emitted row carries the absolute
  value of the 2-decimal rounding of the sum, over the members of its group, of the
  signed value debit minus credit, where the value of a credit note is forced
  non-positive and the value of any other member non-negative; that amount is not zero;
  and every group with a usable code and a rounded sum other than zero emits such a row.
\<close>

theorem consolidated_amount:
  "(\<forall>(i, (r, a))\<in>set (consolidate True df).
      a = Some \<bar>round2 (signed_total df (clean_invoice_code (invoice r)))\<bar> \<and> a \<noteq> Some 0) \<and>
   (\<forall>k. k \<noteq> [] \<and> k \<noteq> ''0'' \<and> code_group df k \<noteq> [] \<and> round2 (signed_total df k) \<noteq> 0 \<longrightarrow>
      (\<exists>i r. (i, (r, Some \<bar>round2 (signed_total df k)\<bar>)) \<in> set (consolidate True df) \<and>
         clean_invoice_code (invoice r) = k)) \<and>
   (\<forall>(i, r)\<in>set df.
      signed_value r =
        (if rtype r = CN then - \<bar>normalize_number (debit r) - normalize_number (credit r)\<bar>
         else \<bar>normalize_number (debit r) - normalize_number (credit r)\<bar>) \<and>
      (rtype r = CN \<longrightarrow> signed_value r \<le> 0) \<and> (rtype r = INV \<longrightarrow> 0 \<le> signed_value r))"
proof (intro conjI)
  show "\<forall>(i, (r, a))\<in>set (consolidate True df).
      a = Some \<bar>round2 (signed_total df (clean_invoice_code (invoice r)))\<bar> \<and> a \<noteq> Some 0"
  proof (clarify)
    fix i r a assume "(i, (r, a)) \<in> set (consolidate True df)"
    then obtain k b where "(i, (r, b)) \<in> set (consolidate_code df k)" "a = Some b"
      by (auto simp: consolidate_def Let_def)
    with consolidate_code_entry [of i r b df k]
    show "a = Some \<bar>round2 (signed_total df (clean_invoice_code (invoice r)))\<bar> \<and> a \<noteq> Some 0"
      by simp
  qed
  show "\<forall>k. k \<noteq> [] \<and> k \<noteq> ''0'' \<and> code_group df k \<noteq> [] \<and> round2 (signed_total df k) \<noteq> 0 \<longrightarrow>
      (\<exists>i r. (i, (r, Some \<bar>round2 (signed_total df k)\<bar>)) \<in> set (consolidate True df) \<and>
         clean_invoice_code (invoice r) = k)"
    using consolidate_emits by blast
  show "\<forall>(i, r)\<in>set df.
      signed_value r =
        (if rtype r = CN then - \<bar>normalize_number (debit r) - normalize_number (credit r)\<bar>
         else \<bar>normalize_number (debit r) - normalize_number (credit r)\<bar>) \<and>
      (rtype r = CN \<longrightarrow> signed_value r \<le> 0) \<and> (rtype r = INV \<longrightarrow> 0 \<le> signed_value r)"
    by (auto simp: signed_value_def Let_def)
qed

theorem consolidated_amount_witness:
  "consolidate True [(0, invoice_row), (1, credit_note_row)] = [(0, (invoice_row, Some 150))] \<and>
   signed_total [(0, invoice_row), (1, credit_note_row)] ''123'' = 150 \<and>
   Some (150 :: rat) = Some \<bar>round2 (signed_total [(0, invoice_row), (1, credit_note_row)]
                          (clean_invoice_code (invoice invoice_row)))\<bar> \<and>
   signed_value invoice_row = 200 \<and> signed_value credit_note_row = - 50"
proof -
  let ?df = "[(0::nat, invoice_row), (1, credit_note_row)]"
  have c: "consolidate True ?df = [(0, (invoice_row, Some 150))]" by code_simp
  have s: "signed_total ?df ''123'' = 150" by code_simp
  have v: "signed_value invoice_row = 200" "signed_value credit_note_row = - 50" by code_simp+
  have "(0, (invoice_row, Some 150)) \<in> set (consolidate True ?df)"
    unfolding c by simp
  with consolidated_amount [of ?df]
  have "Some (150 :: rat) = Some \<bar>round2 (signed_total ?df
                          (clean_invoice_code (invoice invoice_row)))\<bar>"
    by fast
  with c s v show ?thesis by blast
qed

end
